theory Spec2Isabelle
  imports Complex_Main "HOL-Library.AList" "HOL-Library.Sublist"
begin

section \<open>Python values, errors and paths\<close>

text \<open>
  The exceptions the modelled code can raise.  A function that can raise returns
  \<open>error + 'a\<close>, with \<open>Inl\<close> for the exception.
\<close>

datatype error =
    ValueError string
  | RuntimeError string
  | FileNotFoundError string
  | FileExistsError
  | NotADirectoryError
  | IsADirectoryError
  | KeyError string
  | IndexError
  | TypeError
  | AttributeError
  | HTTPStatusError nat
  | TransportError
  | UnpicklingError
  | ArchiveError

text \<open>
  The values a metadata dictionary (\<open>Dict[str, Any]\<close>) holds in this program: \<open>None\<close>,
  a string, or a float.  The float type \<open>'s\<close> is a parameter: the code only compares and
  copies scores.
\<close>

datatype 's pyval = PNone | PStr string | PFloat 's

text \<open>A Python \<open>dict\<close> with string keys keeps insertion order: an association list.\<close>

type_synonym 's dict = "(string \<times> 's pyval) list"

definition truthy :: "('s::zero) pyval \<Rightarrow> bool" where
  "truthy v = (case v of PNone \<Rightarrow> False | PStr s \<Rightarrow> s \<noteq> [] | PFloat x \<Rightarrow> x \<noteq> 0)"

definition dict_get :: "'s dict \<Rightarrow> string \<Rightarrow> 's pyval" where
  \<comment> \<open>\<open>d.get(k)\<close>: \<open>None\<close> for a missing key.\<close>
  "dict_get d k = (case map_of d k of None \<Rightarrow> PNone | Some v \<Rightarrow> v)"

definition val_or :: "('s::zero) pyval \<Rightarrow> 's pyval \<Rightarrow> 's pyval" where
  \<comment> \<open>\<open>a or b\<close>.\<close>
  "val_or a b = (if truthy a then a else b)"

fun join :: "string \<Rightarrow> string list \<Rightarrow> string" where
  "join sep [] = []"
| "join sep [x] = x"
| "join sep (x # y # ys) = x @ sep @ join sep (y # ys)"

definition is_str :: "'s pyval \<Rightarrow> bool" where
  "is_str v = (case v of PStr _ \<Rightarrow> True | _ \<Rightarrow> False)"

definition the_str :: "'s pyval \<Rightarrow> string" where
  "the_str v = (case v of PStr s \<Rightarrow> s | _ \<Rightarrow> [])"

definition str_join :: "string \<Rightarrow> 's pyval list \<Rightarrow> error + string" where
  \<comment> \<open>\<open>sep.join(vs)\<close> raises TypeError when an item is not a string.\<close>
  "str_join sep vs = (if list_all is_str vs then Inr (join sep (map the_str vs)) else Inl TypeError)"

text \<open>File contents and HTTP bodies are byte strings.\<close>

type_synonym bytes = string

text \<open>A \<open>pathlib.Path\<close> is the list of its components; \<open>p / name\<close> appends one.\<close>

type_synonym path = "string list"

definition str_path :: "path \<Rightarrow> string" where
  "str_path p = join ''/'' p"

section \<open>Settings (settings.py)\<close>

record Settings =
  raw_data_dir :: path
  workspace_dir :: path
  openai_model :: string
  top_k :: int
  archives :: "string list"

section \<open>The vector store (index.py)\<close>

text \<open>
  Modelled from the spec: \<open>DocumentChunk\<close> of \<open>gptlov/ingest.py\<close>, which is not among the
  sources.  The spec's ChunkRecord is
  \<open>{ text: string, title: string?, refid: string?, source_path: path }\<close>; the field
  \<open>text\<close> is named \<open>chunk_text\<close> here.
\<close>

record DocumentChunk =
  chunk_text :: string
  title :: "string option"
  refid :: "string option"
  source_path :: path

definition opt_val :: "string option \<Rightarrow> 's pyval" where
  "opt_val x = (case x of None \<Rightarrow> PNone | Some s \<Rightarrow> PStr s)"

text \<open>
  The store holds the fitted vectorizer (type \<open>'v\<close>), the document-term matrix as the list
  of its rows (type \<open>'row\<close>), and one metadata dictionary per document.
\<close>

record ('v, 'row, 's) VectorStore =
  vectorizer :: 'v
  matrix :: "'row list"
  metadata :: "'s dict list"

text \<open>
  What \<open>save\<close> hands to \<open>joblib.dump\<close>: a dictionary with the keys \<open>vectorizer\<close>,
  \<open>matrix\<close> and \<open>metadata\<close>, each holding an object of its own kind.
\<close>

datatype ('v, 'row, 's) pyobj =
    OVectorizer 'v
  | OMatrix "'row list"
  | OMetadata "'s dict list"

type_synonym ('v, 'row, 's) store_dict = "(string \<times> ('v, 'row, 's) pyobj) list"

text \<open>
  The libraries the code calls are parameters of the model, collected in one record:
  \<^item> \<open>fit mf texts\<close>: \<open>TfidfVectorizer(lowercase=True, max_features=mf, ngram_range=(1, 2))\<close>
    fitted on \<open>texts\<close>; scikit-learn raises ValueError on an empty vocabulary;
  \<^item> \<open>transform v t\<close>: the weight vector of one text under the fitted vectorizer
    (\<open>transform\<close> of a list of texts is row-wise, and \<open>fit_transform\<close> is \<open>fit\<close>
    followed by \<open>transform\<close> of the same texts);
  \<^item> \<open>cosine row q\<close>: one entry of \<open>cosine_similarity(matrix, query_vector)\<close>, which has one
    row per row of the matrix and one column (and raises for a matrix without rows, see
    \<open>cosine_similarity\<close> below);
  \<^item> \<open>argsort\<close>: \<open>numpy.argsort\<close> with its default kind;
  \<^item> \<open>dumps\<close> and \<open>loads\<close>: the serialisation of \<open>joblib.dump\<close> and \<open>joblib.load\<close>;
  \<^item> \<open>float_str\<close>: how a float is formatted in an f-string.
\<close>

record ('v, 'row, 's) lib =
  fit :: "int option \<Rightarrow> string list \<Rightarrow> error + 'v"
  transform :: "'v \<Rightarrow> string \<Rightarrow> 'row"
  cosine :: "'row \<Rightarrow> 'row \<Rightarrow> 's"
  argsort :: "'s list \<Rightarrow> nat list"
  dumps :: "('v, 'row, 's) store_dict \<Rightarrow> bytes"
  loads :: "bytes \<Rightarrow> ('v, 'row, 's) store_dict option"
  float_str :: "'s \<Rightarrow> string"

text \<open>
  The contract of \<open>numpy.argsort\<close>: the indices of the array, each once (sorted, they
  are \<open>0, ..., n - 1\<close>), in an order that sorts the array ascending.  The default kind
  is not stable, so the order of equal keys is not part of the contract.
\<close>

definition is_argsort :: "('s::linorder) list \<Rightarrow> nat list \<Rightarrow> bool" where
  "is_argsort xs idxs \<longleftrightarrow>
     sort idxs = [0..<length xs] \<and> sorted (map (\<lambda>i. xs ! i) idxs)"

text \<open>A stable argsort (insertion sort on the keys), as numpy's \<open>kind='stable'\<close>.\<close>

definition stable_argsort :: "('s::linorder) list \<Rightarrow> nat list" where
  "stable_argsort xs = sort_key (\<lambda>i. xs ! i) [0..<length xs]"

section \<open>The file system\<close>

text \<open>
  The file system is a table from paths to nodes; the empty path is the current directory,
  which always exists.  Only what the modelled code uses is modelled: \<open>Path.exists\<close>,
  \<open>Path.mkdir(parents=True, exist_ok=True)\<close>, \<open>open(p, "wb")\<close> and \<open>write\<close>, reading a
  file, \<open>Path.unlink\<close>, \<open>shutil.rmtree\<close>, \<open>shutil.move\<close> and \<open>Path.rglob\<close>.
\<close>

datatype node = Dir | File bytes

type_synonym filesystem = "(path \<times> node) list"

definition node_at :: "filesystem \<Rightarrow> path \<Rightarrow> node option" where
  "node_at fs p = (if p = [] then Some Dir else map_of fs p)"

definition path_exists :: "filesystem \<Rightarrow> path \<Rightarrow> bool" where
  "path_exists fs p \<longleftrightarrow> node_at fs p \<noteq> None"

definition is_dir :: "filesystem \<Rightarrow> path \<Rightarrow> bool" where
  "is_dir fs p \<longleftrightarrow> node_at fs p = Some Dir"

definition is_file :: "filesystem \<Rightarrow> path \<Rightarrow> bool" where
  "is_file fs p \<longleftrightarrow> (case node_at fs p of Some (File _) \<Rightarrow> True | _ \<Rightarrow> False)"

definition parent :: "path \<Rightarrow> path" where
  "parent p = butlast p"

definition mkdir_parents :: "path \<Rightarrow> filesystem \<Rightarrow> error + filesystem" where
  \<comment> \<open>\<open>p.mkdir(parents=True, exist_ok=True)\<close>: fails, creating nothing, when \<open>p\<close> or one of
      its ancestors is a file; otherwise creates the directories that are missing.\<close>
  "mkdir_parents p fs =
     (let qs = tl (prefixes p) in
      if list_ex (is_file fs) qs
      then Inl (if is_file fs p then FileExistsError else NotADirectoryError)
      else Inr (fs @ map (\<lambda>q. (q, Dir)) (filter (\<lambda>q. \<not> path_exists fs q) qs)))"

definition open_wb :: "path \<Rightarrow> filesystem \<Rightarrow> error + filesystem" where
  \<comment> \<open>\<open>open(p, "wb")\<close>: creates the file or truncates it.\<close>
  "open_wb p fs =
     (if is_dir fs p then Inl IsADirectoryError
      else if is_file fs (parent p) then Inl NotADirectoryError
      else if \<not> path_exists fs (parent p) then Inl (FileNotFoundError (str_path p))
      else Inr (AList.update p (File []) fs))"

definition write_chunk :: "path \<Rightarrow> filesystem \<Rightarrow> bytes \<Rightarrow> filesystem" where
  \<comment> \<open>\<open>handle.write(chunk)\<close> on the handle opened on \<open>p\<close>.\<close>
  "write_chunk p fs chunk =
     (case node_at fs p of
        Some (File old) \<Rightarrow> AList.update p (File (old @ chunk)) fs
      | _ \<Rightarrow> fs)"

definition read_bytes :: "path \<Rightarrow> filesystem \<Rightarrow> error + bytes" where
  "read_bytes p fs =
     (case node_at fs p of
        None \<Rightarrow> Inl (FileNotFoundError (str_path p))
      | Some Dir \<Rightarrow> Inl IsADirectoryError
      | Some (File b) \<Rightarrow> Inr b)"

definition unlink :: "path \<Rightarrow> filesystem \<Rightarrow> error + filesystem" where
  "unlink p fs =
     (case node_at fs p of
        None \<Rightarrow> Inl (FileNotFoundError (str_path p))
      | Some Dir \<Rightarrow> Inl IsADirectoryError
      | Some (File b) \<Rightarrow> Inr (AList.delete p fs))"

definition rmtree :: "path \<Rightarrow> filesystem \<Rightarrow> error + filesystem" where
  "rmtree p fs =
     (case node_at fs p of
        None \<Rightarrow> Inl (FileNotFoundError (str_path p))
      | Some (File b) \<Rightarrow> Inl NotADirectoryError
      | Some Dir \<Rightarrow> Inr (filter (\<lambda>(q, n). \<not> prefix p q) fs))"

definition rmtree_ignore_errors :: "path \<Rightarrow> filesystem \<Rightarrow> filesystem" where
  \<comment> \<open>\<open>shutil.rmtree(p, ignore_errors=True)\<close>.\<close>
  "rmtree_ignore_errors p fs = (case rmtree p fs of Inl e \<Rightarrow> fs | Inr fs' \<Rightarrow> fs')"

definition rename :: "path \<Rightarrow> path \<Rightarrow> filesystem \<Rightarrow> filesystem" where
  \<comment> \<open>The node at \<open>src\<close>, with everything below it, becomes the node at \<open>dst\<close>.\<close>
  "rename src dst fs =
     map (\<lambda>(q, n). if prefix src q then (dst @ drop (length src) q, n) else (q, n)) fs"

definition shutil_move :: "path \<Rightarrow> path \<Rightarrow> filesystem \<Rightarrow> error + filesystem" where
  \<comment> \<open>\<open>shutil.move(src, dst)\<close>: into \<open>dst\<close> when that is a directory, onto \<open>dst\<close> otherwise.\<close>
  "shutil_move src dst fs =
     (if src = [] \<or> \<not> path_exists fs src then Inl (FileNotFoundError (str_path src))
      else if is_dir fs dst then
        (let real_dst = dst @ [last src] in
         if path_exists fs real_dst then Inl FileExistsError
         else Inr (rename src real_dst fs))
      else if \<not> is_dir fs (parent dst) then Inl (FileNotFoundError (str_path dst))
      else Inr (rename src dst (AList.delete dst fs)))"

definition rglob :: "path \<Rightarrow> string \<Rightarrow> filesystem \<Rightarrow> path list" where
  \<comment> \<open>\<open>p.rglob(name)\<close> for a literal name: every path below \<open>p\<close> whose last component
      is \<open>name\<close>, in the order of the table.\<close>
  "rglob p name fs = filter (\<lambda>q. strict_prefix p q \<and> last q = name) (map fst fs)"

text \<open>
  In a file system every ancestor of a node is a directory.  The table does not enforce
  this, so where it matters it is a hypothesis: \<open>dirs_ok fs p\<close> says that \<open>p\<close> and all
  its ancestors are directories.
\<close>

definition dirs_ok :: "filesystem \<Rightarrow> path \<Rightarrow> bool" where
  "dirs_ok fs p \<longleftrightarrow> list_all (is_dir fs) (tl (prefixes p))"

section \<open>Saving, loading and building the store (index.py)\<close>

definition joblib_dump :: "('v, 'row, 's) lib \<Rightarrow> ('v, 'row, 's) store_dict \<Rightarrow> path \<Rightarrow>
    filesystem \<Rightarrow> (error + unit) \<times> filesystem" where
  "joblib_dump L obj p fs =
     (case open_wb p fs of
        Inl e \<Rightarrow> (Inl e, fs)
      | Inr fs1 \<Rightarrow> (Inr (), write_chunk p fs1 (dumps L obj)))"

definition joblib_load :: "('v, 'row, 's) lib \<Rightarrow> path \<Rightarrow> filesystem \<Rightarrow>
    error + ('v, 'row, 's) store_dict" where
  "joblib_load L p fs =
     (case read_bytes p fs of
        Inl e \<Rightarrow> Inl e
      | Inr b \<Rightarrow> (case loads L b of None \<Rightarrow> Inl UnpicklingError | Some obj \<Rightarrow> Inr obj))"

definition pickled :: "('v, 'row, 's) VectorStore \<Rightarrow> ('v, 'row, 's) store_dict" where
  \<comment> \<open>The dictionary literal of \<open>save\<close>.\<close>
  "pickled st =
     [(''vectorizer'', OVectorizer (vectorizer st)),
      (''matrix'', OMatrix (matrix st)),
      (''metadata'', OMetadata (metadata st))]"

definition save :: "('v, 'row, 's) lib \<Rightarrow> ('v, 'row, 's) VectorStore \<Rightarrow> path \<Rightarrow>
    filesystem \<Rightarrow> (error + unit) \<times> filesystem" where
  "save L st p fs =
     (case mkdir_parents (parent p) fs of
        Inl e \<Rightarrow> (Inl e, fs)
      | Inr fs1 \<Rightarrow> joblib_dump L (pickled st) p fs1)"

text \<open>
  \<open>load\<close> reads the three keys back and passes them to the constructor in the order
  \<open>vectorizer\<close>, \<open>matrix\<close>, \<open>metadata\<close>.  Python does not check what kind of object each
  key holds; the typed store of the model does, and an object of the wrong kind is a
  TypeError here (in Python the failure comes at the first use of the field).
\<close>

definition load :: "('v, 'row, 's) lib \<Rightarrow> path \<Rightarrow> filesystem \<Rightarrow>
    error + ('v, 'row, 's) VectorStore" where
  "load L p fs =
     (case joblib_load L p fs of
        Inl e \<Rightarrow> Inl e
      | Inr b \<Rightarrow>
          (case map_of b ''vectorizer'' of
             None \<Rightarrow> Inl (KeyError ''vectorizer'')
           | Some ov \<Rightarrow>
               (case map_of b ''matrix'' of
                  None \<Rightarrow> Inl (KeyError ''matrix'')
                | Some om \<Rightarrow>
                    (case map_of b ''metadata'' of
                       None \<Rightarrow> Inl (KeyError ''metadata'')
                     | Some omd \<Rightarrow>
                         (case (ov, om, omd) of
                            (OVectorizer v, OMatrix m, OMetadata md) \<Rightarrow>
                              Inr \<lparr>vectorizer = v, matrix = m, metadata = md\<rparr>
                          | _ \<Rightarrow> Inl TypeError)))))"

definition VECTOR_STORE_FILENAME :: string where
  "VECTOR_STORE_FILENAME = ''vector_store.pkl''"

definition chunk_metadata :: "DocumentChunk \<Rightarrow> 's dict" where
  "chunk_metadata chunk =
     [(''title'', opt_val (title chunk)),
      (''refid'', opt_val (refid chunk)),
      (''source_path'', PStr (str_path (source_path chunk))),
      (''content'', PStr (chunk_text chunk))]"

definition build_vector_store :: "('v, 'row, 's) lib \<Rightarrow> DocumentChunk list \<Rightarrow> path \<Rightarrow>
    int option \<Rightarrow> filesystem \<Rightarrow> (error + path) \<times> filesystem" where
  "build_vector_store L chunks workspace max_features fs =
     (if chunks = []
      then (Inl (ValueError ''No document chunks provided. Did you extract the archives?''), fs)
      else
        (let texts = map chunk_text chunks;
             md = map chunk_metadata chunks
         in case fit L max_features texts of
              Inl e \<Rightarrow> (Inl e, fs)
            | Inr v \<Rightarrow>
                (let m = map (transform L v) texts;
                     st = \<lparr>vectorizer = v, matrix = m, metadata = md\<rparr>;
                     p = workspace @ [VECTOR_STORE_FILENAME]
                 in case save L st p fs of
                      (Inl e, fs') \<Rightarrow> (Inl e, fs')
                    | (Inr u, fs') \<Rightarrow> (Inr p, fs'))))"

section \<open>Retrieval (bot.py)\<close>

record 's RetrievalResult =
  score :: 's
  content :: "'s pyval"
  r_metadata :: "'s dict"

definition int_or :: "int option \<Rightarrow> int \<Rightarrow> int" where
  \<comment> \<open>\<open>top_k or default\<close> for \<open>top_k: int | None\<close>: \<open>None\<close> and \<open>0\<close> are falsy.\<close>
  "int_or a b = (case a of None \<Rightarrow> b | Some k \<Rightarrow> if k = 0 then b else k)"

definition slice_to :: "int \<Rightarrow> 'a list \<Rightarrow> 'a list" where
  \<comment> \<open>\<open>xs[:k]\<close>: a negative \<open>k\<close> counts from the end.\<close>
  "slice_to k xs = (if 0 \<le> k then take (nat k) xs else take (length xs - nat (- k)) xs)"

definition cosine_similarity :: "('v, 'row, 's) lib \<Rightarrow> 'row list \<Rightarrow> 'row \<Rightarrow> error + 's list" where
  \<comment> \<open>\<open>cosine_similarity(matrix, query_vector).ravel()\<close>: one score per row; the input
      check of scikit-learn raises ValueError for a matrix that has no row.\<close>
  "cosine_similarity L m query_vector =
     (if m = [] then Inl (ValueError ''Found array with 0 sample(s)'')
      else Inr (map (\<lambda>row. cosine L row query_vector) m))"

fun build_results :: "'s list \<Rightarrow> 's dict list \<Rightarrow> nat list \<Rightarrow> error + 's RetrievalResult list" where
  "build_results scores md [] = Inr []"
| "build_results scores md (idx # rest) =
     (if length md \<le> idx \<or> length scores \<le> idx then Inl IndexError
      else case map_of (md ! idx) ''content'' of
        None \<Rightarrow> Inl (KeyError ''content'')
      | Some c \<Rightarrow>
          (case build_results scores md rest of
             Inl e \<Rightarrow> Inl e
           | Inr rs \<Rightarrow>
               Inr (\<lparr>score = scores ! idx, content = c,
                     r_metadata = filter (\<lambda>(k, v). k \<noteq> ''content'') (md ! idx)\<rparr> # rs)))"

definition retrieve :: "('v, 'row, 's) lib \<Rightarrow> Settings \<Rightarrow> ('v, 'row, 's) VectorStore \<Rightarrow>
    string \<Rightarrow> int option \<Rightarrow> error + 's RetrievalResult list" where
  "retrieve L cfg st question topk =
     (let k = int_or topk (top_k cfg);
          query_vector = transform L (vectorizer st) question
      in case cosine_similarity L (matrix st) query_vector of
           Inl e \<Rightarrow> Inl e
         | Inr scores \<Rightarrow>
             build_results scores (metadata st) (slice_to k (rev (argsort L scores))))"

text \<open>
  The values of the local variables \<open>scores\<close> and \<open>top_indices\<close> of \<open>retrieve\<close>, when
  \<open>cosine_similarity\<close> returns (the store has a row).
\<close>

definition scores_of :: "('v, 'row, 's) lib \<Rightarrow> ('v, 'row, 's) VectorStore \<Rightarrow> string \<Rightarrow> 's list" where
  "scores_of L st question =
     (let query_vector = transform L (vectorizer st) question
      in map (\<lambda>row. cosine L row query_vector) (matrix st))"

definition top_indices :: "('v, 'row, 's) lib \<Rightarrow> Settings \<Rightarrow> ('v, 'row, 's) VectorStore \<Rightarrow>
    string \<Rightarrow> int option \<Rightarrow> nat list" where
  "top_indices L cfg st question topk =
     slice_to (int_or topk (top_k cfg)) (rev (argsort L (scores_of L st question)))"

section \<open>Answering (bot.py)\<close>

text \<open>
  The OpenAI client object, the request of \<open>client.chat.completions.create\<close>, and the
  process environment.  The completion service is a parameter \<open>svc\<close>: given the client and
  the request it raises or returns \<open>response.choices[0].message.content\<close>, which may be
  \<open>None\<close>.  Strings are UTF-8 byte strings.
\<close>

record OpenAI =
  api_key :: string
  base_url :: "string option"

record ChatRequest =
  req_model :: string
  messages :: "(string \<times> string) list"
  temperature :: real

type_synonym environ = "string \<Rightarrow> string option"

type_synonym service = "OpenAI \<Rightarrow> ChatRequest \<Rightarrow> error + string option"

record ('v, 'row, 's) GPTLovBot =
  store :: "('v, 'row, 's) VectorStore"
  model :: string
  client :: "OpenAI option"

record 's Answer =
  answer :: string
  contexts :: "'s dict list"

definition str_truthy :: "string option \<Rightarrow> bool" where
  \<comment> \<open>Truth value of a \<open>str | None\<close>.\<close>
  "str_truthy x = (case x of None \<Rightarrow> False | Some s \<Rightarrow> s \<noteq> [])"

definition GPTLovBot_init :: "('v, 'row, 's) lib \<Rightarrow> Settings \<Rightarrow> path \<Rightarrow> string option \<Rightarrow>
    filesystem \<Rightarrow> error + ('v, 'row, 's) GPTLovBot" where
  "GPTLovBot_init L cfg store_path model_arg fs =
     (case load L store_path fs of
        Inl e \<Rightarrow> Inl e
      | Inr st \<Rightarrow>
          Inr \<lparr>store = st,
               model = (case model_arg of
                          None \<Rightarrow> openai_model cfg
                        | Some m \<Rightarrow> if m = [] then openai_model cfg else m),
               client = None\<rparr>)"

definition ensure_client :: "environ \<Rightarrow> ('v, 'row, 's) GPTLovBot \<Rightarrow>
    (error + OpenAI) \<times> ('v, 'row, 's) GPTLovBot" where
  "ensure_client env self =
     (case client self of
        Some c \<Rightarrow> (Inr c, self)
      | None \<Rightarrow>
          (case env ''OPENAI_API_KEY'' of
             None \<Rightarrow>
               (Inl (RuntimeError ''OPENAI_API_KEY is not set. Cannot generate model responses.''), self)
           | Some key \<Rightarrow>
               if key = []
               then
                 (Inl (RuntimeError ''OPENAI_API_KEY is not set. Cannot generate model responses.''), self)
               else
                 (let burl = env ''OPENAI_BASE_URL'';
                      c = (if str_truthy burl then \<lparr>api_key = key, base_url = burl\<rparr>
                           else \<lparr>api_key = key, base_url = None\<rparr>)
                  in (Inr c, self\<lparr>client := Some c\<rparr>))))"

definition nl :: string where
  "nl = [CHR 0x0A]"

definition FALLBACK_NOTICE :: string where
  "FALLBACK_NOTICE = ''No OpenAI API key configured. Here are the most relevant excerpts:'' @ nl @ nl"

definition SYSTEM_PROMPT :: string where
  "SYSTEM_PROMPT =
     ''Du er GPTLov, en hjelpsom assistent som svarer p'' @ [CHR 0xC3, CHR 0xA5] @ '' sp''
     @ [CHR 0xC3, CHR 0xB8] @ ''rsm'' @ [CHR 0xC3, CHR 0xA5] @ ''l om norske lover og ''
     @ ''sentrale forskrifter. Oppgi kun informasjon hentet fra konteksten. Hvis svaret ''
     @ ''ikke finnes i utdragene, si at du ikke er sikker.''"

definition py_str :: "('v, 'row, 's) lib \<Rightarrow> 's pyval \<Rightarrow> string" where
  \<comment> \<open>A value formatted in an f-string.\<close>
  "py_str L v = (case v of PNone \<Rightarrow> ''None'' | PStr s \<Rightarrow> s | PFloat x \<Rightarrow> float_str L x)"

definition is_space :: "char \<Rightarrow> bool" where
  "is_space c \<longleftrightarrow>
     c \<in> set [CHR 0x20, CHR 0x09, CHR 0x0A, CHR 0x0B, CHR 0x0C, CHR 0x0D,
              CHR 0x1C, CHR 0x1D, CHR 0x1E, CHR 0x1F]"

definition strip :: "string \<Rightarrow> string" where
  "strip s = rev (dropWhile is_space (rev (dropWhile is_space s)))"

definition source_label :: "('v, 'row, 's::zero) lib \<Rightarrow> 's RetrievalResult \<Rightarrow> string" where
  \<comment> \<open>The f-string of line 75: title, else refid, else source path, then the content.\<close>
  "source_label L block =
     ''Kilde: ''
     @ py_str L (val_or (val_or (dict_get (r_metadata block) ''title'')
                                (dict_get (r_metadata block) ''refid''))
                        (dict_get (r_metadata block) ''source_path''))
     @ nl @ py_str L (content block)"

definition generate_answer :: "service \<Rightarrow> environ \<Rightarrow> ('v, 'row, 's::zero) lib \<Rightarrow>
    ('v, 'row, 's) GPTLovBot \<Rightarrow> string \<Rightarrow> 's RetrievalResult list \<Rightarrow>
    (error + string) \<times> ('v, 'row, 's) GPTLovBot \<times> ChatRequest list" where
  \<comment> \<open>The third component lists the requests sent to the completion service.\<close>
  "generate_answer svc env L self question context_blocks =
     (case ensure_client env self of
        (Inl (RuntimeError msg), self1) \<Rightarrow>
          (case str_join (nl @ nl) (map content context_blocks) of
             Inl e \<Rightarrow> (Inl e, self1, [])
           | Inr context \<Rightarrow> (Inr (FALLBACK_NOTICE @ context), self1, []))
      | (Inl e, self1) \<Rightarrow> (Inl e, self1, [])
      | (Inr c, self1) \<Rightarrow>
          (let context_text = join (nl @ nl) (map (source_label L) context_blocks);
               req = \<lparr>req_model = model self1,
                      messages =
                        [(''system'', SYSTEM_PROMPT),
                         (''user'',
                          ''Kontekst:'' @ nl @ context_text @ nl @ nl
                          @ ''Sp'' @ [CHR 0xC3, CHR 0xB8] @ ''rsm'' @ [CHR 0xC3, CHR 0xA5] @ ''l: ''
                          @ question @ nl @ ''Svar p'' @ [CHR 0xC3, CHR 0xA5] @ '' norsk.'')],
                      temperature = 2 / 10\<rparr>
           in case svc c req of
                Inl e \<Rightarrow> (Inl e, self1, [req])
              | Inr None \<Rightarrow> (Inl AttributeError, self1, [req])
              | Inr (Some txt) \<Rightarrow> (Inr (strip txt), self1, [req])))"

definition context_dict :: "'s RetrievalResult \<Rightarrow> 's dict" where
  \<comment> \<open>\<open>{"score": block.score, **block.metadata, "content": block.content}\<close>.\<close>
  "context_dict block =
     AList.update ''content'' (content block)
       (fold (\<lambda>(k, v). AList.update k v) (r_metadata block) [(''score'', PFloat (score block))])"

definition ask :: "service \<Rightarrow> environ \<Rightarrow> ('v, 'row, 's::zero) lib \<Rightarrow> Settings \<Rightarrow>
    ('v, 'row, 's) GPTLovBot \<Rightarrow> string \<Rightarrow> int option \<Rightarrow>
    (error + 's Answer) \<times> ('v, 'row, 's) GPTLovBot \<times> ChatRequest list" where
  "ask svc env L cfg self question topk =
     (case retrieve L cfg (store self) question topk of
        Inl e \<Rightarrow> (Inl e, self, [])
      | Inr context_blocks \<Rightarrow>
          (case generate_answer svc env L self question context_blocks of
             (Inl e, self1, calls) \<Rightarrow> (Inl e, self1, calls)
           | (Inr a, self1, calls) \<Rightarrow>
               (Inr \<lparr>answer = a, contexts = map context_dict context_blocks\<rparr>, self1, calls)))"

section \<open>Acquiring archives (data\_pipeline.py)\<close>

text \<open>
  The network is a parameter \<open>srv\<close>: given the URLs requested so far and the URL of a GET
  request, it fails to connect or answers with a status and the chunks of the body;
  the flag of a response says whether the body arrives whole (\<open>False\<close>: the transport
  fails after the chunks listed).  The world is the file system and the log of the
  requests sent.
\<close>

datatype response = ConnectFailed | Response nat "bytes list" bool

type_synonym server = "string list \<Rightarrow> string \<Rightarrow> response"

record world =
  files :: filesystem
  requests :: "string list"

definition LOVDATA_BASE_URL :: string where
  "LOVDATA_BASE_URL = ''https://api.lovdata.no/v1/publicData/get/''"

definition DEFAULT_ARCHIVES :: "string list" where
  "DEFAULT_ARCHIVES = [''gjeldende-lover.tar.bz2'', ''gjeldende-sentrale-forskrifter.tar.bz2'']"

definition is_success :: "nat \<Rightarrow> bool" where
  \<comment> \<open>\<open>raise_for_status\<close> passes the 2xx responses.\<close>
  "is_success status \<longleftrightarrow> 200 \<le> status \<and> status < 300"

definition http_stream_to_file :: "server \<Rightarrow> string \<Rightarrow> path \<Rightarrow> world \<Rightarrow> (error + unit) \<times> world" where
  \<comment> \<open>The block \<open>with httpx.stream("GET", url, ...) as response\<close> of both download
      functions: check the status, open the target, write the chunks.\<close>
  "http_stream_to_file srv url target w =
     (let w1 = w\<lparr>requests := requests w @ [url]\<rparr>
      in case srv (requests w) url of
           ConnectFailed \<Rightarrow> (Inl TransportError, w1)
         | Response status chunks whole \<Rightarrow>
             if \<not> is_success status then (Inl (HTTPStatusError status), w1)
             else
               (case open_wb target (files w1) of
                  Inl e \<Rightarrow> (Inl e, w1)
                | Inr fs1 \<Rightarrow>
                    (let w2 = w1\<lparr>files := foldl (write_chunk target) fs1 chunks\<rparr>
                     in if whole then (Inr (), w2) else (Inl TransportError, w2))))"

definition download_archive :: "server \<Rightarrow> string \<Rightarrow> path \<Rightarrow> world \<Rightarrow> (error + path) \<times> world" where
  "download_archive srv filename dest_dir w =
     (case mkdir_parents dest_dir (files w) of
        Inl e \<Rightarrow> (Inl e, w)
      | Inr fs1 \<Rightarrow>
          (let w1 = w\<lparr>files := fs1\<rparr>;
               destination = dest_dir @ [filename]
           in if path_exists fs1 destination then (Inr destination, w1)
              else
                (case http_stream_to_file srv (LOVDATA_BASE_URL @ filename) destination w1 of
                   (Inl e, w2) \<Rightarrow> (Inl e, w2)
                 | (Inr u, w2) \<Rightarrow> (Inr destination, w2))))"

fun ensure_archives_loop :: "server \<Rightarrow> path \<Rightarrow> bool \<Rightarrow> string list \<Rightarrow> path list \<Rightarrow> world \<Rightarrow>
    (error + path list) \<times> world" where
  "ensure_archives_loop srv raw_dir force [] paths w = (Inr paths, w)"
| "ensure_archives_loop srv raw_dir force (name # names) paths w =
     (let destination = raw_dir @ [name]
      in case (if force \<and> path_exists (files w) destination
               then unlink destination (files w) else Inr (files w)) of
           Inl e \<Rightarrow> (Inl e, w)
         | Inr fs1 \<Rightarrow>
             (case download_archive srv name raw_dir (w\<lparr>files := fs1\<rparr>) of
                (Inl e, w1) \<Rightarrow> (Inl e, w1)
              | (Inr p, w1) \<Rightarrow> ensure_archives_loop srv raw_dir force names (paths @ [p]) w1))"

definition ensure_archives :: "server \<Rightarrow> Settings \<Rightarrow> string list option \<Rightarrow> bool \<Rightarrow> world \<Rightarrow>
    (error + path list) \<times> world" where
  "ensure_archives srv cfg filenames force w =
     (let names = (case filenames of
                     None \<Rightarrow> if archives cfg \<noteq> [] then archives cfg else DEFAULT_ARCHIVES
                   | Some ns \<Rightarrow> ns)
      in ensure_archives_loop srv (raw_data_dir cfg) force names [] w)"

section \<open>Installing a prebuilt store (data\_pipeline.py)\<close>

text \<open>
  Three more library functions are parameters: \<open>url_suffixes url\<close> is
  \<open>Path(urlparse(url).path).suffixes\<close>; \<open>untar\<close> and \<open>unzip\<close> give, for the bytes of an
  archive, the members that \<open>extractall\<close> goes through, each with its name (the list of
  its components, split at the slashes) and the node it holds, and whether the extraction
  came to its end (\<open>False\<close>: it raised after the members listed).

  Where a member is written is not a parameter.  \<open>TarFile.extractall(tmp_dir)\<close> is called
  with no filter: it joins the member name to the directory and opens the result, so a
  component \<open>..\<close> leaves the directory reached so far and a member can be written
  outside the target directory.  \<open>ZipFile.extractall\<close> drops the empty component,
  \<open>.\<close> and \<open>..\<close> from the name before joining it.  Names are resolved lexically (there
  are no symbolic links in the file system of this model).
\<close>

record archive_lib =
  url_suffixes :: "string \<Rightarrow> string list"
  untar :: "bytes \<Rightarrow> (path \<times> node) list \<times> bool"
  unzip :: "bytes \<Rightarrow> (path \<times> node) list \<times> bool"

definition lower_char :: "char \<Rightarrow> char" where
  "lower_char c =
     (let n = (of_char c :: nat) in if 65 \<le> n \<and> n \<le> 90 then char_of (n + 32) else c)"

definition lower :: "string \<Rightarrow> string" where
  \<comment> \<open>\<open>str.lower\<close> on the ASCII letters.\<close>
  "lower s = map lower_char s"

definition endswith_any :: "string \<Rightarrow> string list \<Rightarrow> bool" where
  \<comment> \<open>\<open>s.endswith((e1, e2, ...))\<close>.\<close>
  "endswith_any s es = list_ex (\<lambda>e. suffix e s) es"

datatype archive_kind = TarFile | ZipFile

definition archive_members :: "archive_lib \<Rightarrow> archive_kind \<Rightarrow> bytes \<Rightarrow> (path \<times> node) list \<times> bool" where
  "archive_members A kind = (case kind of TarFile \<Rightarrow> untar A | ZipFile \<Rightarrow> unzip A)"

definition member_step :: "path \<Rightarrow> string \<Rightarrow> path" where
  \<comment> \<open>One more component of a name, from the path reached so far.\<close>
  "member_step p c =
     (if c = ''..'' then butlast p else if c = ''.'' \<or> c = [] then p else p @ [c])"

definition member_target :: "archive_kind \<Rightarrow> path \<Rightarrow> path \<Rightarrow> path" where
  \<comment> \<open>The path at which \<open>extractall(dir)\<close> writes the member called \<open>name\<close>.\<close>
  "member_target kind dir name =
     (case kind of
        TarFile \<Rightarrow> foldl member_step dir name
      | ZipFile \<Rightarrow> dir @ filter (\<lambda>c. c \<noteq> [] \<and> c \<noteq> ''.'' \<and> c \<noteq> ''..'') name)"

definition put_member :: "archive_kind \<Rightarrow> path \<Rightarrow> filesystem \<Rightarrow> path \<times> node \<Rightarrow> filesystem" where
  \<comment> \<open>One member written by \<open>extractall\<close>, with the directories above it; a directory
      that exists at the target stays as it is.\<close>
  "put_member kind dir fs m =
     (case m of (name, n) \<Rightarrow>
        let p = member_target kind dir name
        in if is_dir fs p then fs
           else AList.update p n
                  (case mkdir_parents (parent p) fs of Inl e \<Rightarrow> fs | Inr fs' \<Rightarrow> fs'))"

definition extractall :: "archive_lib \<Rightarrow> archive_kind \<Rightarrow> path \<Rightarrow> path \<Rightarrow>
    filesystem \<Rightarrow> (error + unit) \<times> filesystem" where
  \<comment> \<open>Open the archive at \<open>src\<close> and extract it into \<open>dir\<close>.\<close>
  "extractall A kind src dir fs =
     (case read_bytes src fs of
        Inl e \<Rightarrow> (Inl e, fs)
      | Inr b \<Rightarrow>
          (case archive_members A kind b of (members, whole) \<Rightarrow>
             (if whole then Inr () else Inl ArchiveError,
              foldl (put_member kind dir) fs members)))"

definition finalize :: "path \<Rightarrow> path \<Rightarrow> filesystem \<Rightarrow> (error + path) \<times> filesystem" where
  \<comment> \<open>The local function \<open>_finalize(src)\<close>.\<close>
  "finalize store_path src fs =
     (case (if path_exists fs store_path then unlink store_path fs else Inr fs) of
        Inl e \<Rightarrow> (Inl e, fs)
      | Inr fs1 \<Rightarrow>
          (case shutil_move src store_path fs1 of
             Inl e \<Rightarrow> (Inl e, fs1)
           | Inr fs2 \<Rightarrow> (Inr store_path, fs2)))"

definition finalize_and_clean :: "path \<Rightarrow> path \<Rightarrow> path \<Rightarrow> filesystem \<Rightarrow>
    (error + path) \<times> filesystem" where
  \<comment> \<open>\<open>final_path = _finalize(src); shutil.rmtree(tmp_dir, ignore_errors=True);
      return final_path\<close>.\<close>
  "finalize_and_clean store_path tmp_dir src fs =
     (case finalize store_path src fs of
        (Inl e, fs1) \<Rightarrow> (Inl e, fs1)
      | (Inr final_path, fs1) \<Rightarrow> (Inr final_path, rmtree_ignore_errors tmp_dir fs1))"

definition install_extracted :: "archive_lib \<Rightarrow> archive_kind \<Rightarrow> string \<Rightarrow> path \<Rightarrow>
    path \<Rightarrow> path \<Rightarrow> filesystem \<Rightarrow> (error + path) \<times> filesystem" where
  \<comment> \<open>An archive branch (tar or zip) followed by lines 112-121.\<close>
  "install_extracted A kind url store_path tmp_dir download_target fs =
     (case extractall A kind download_target tmp_dir fs of
        (Inl e, fs1) \<Rightarrow> (Inl e, fs1)
      | (Inr u, fs1) \<Rightarrow>
          (case unlink download_target fs1 of
             Inl e \<Rightarrow> (Inl e, fs1)
           | Inr fs2 \<Rightarrow>
               (case rglob tmp_dir VECTOR_STORE_FILENAME fs2 of
                  [] \<Rightarrow>
                    (Inl (FileNotFoundError
                       (''Downloaded archive from '' @ url @ '' did not contain ''
                        @ VECTOR_STORE_FILENAME)), fs2)
                | vector_path # others \<Rightarrow>
                    finalize_and_clean store_path tmp_dir vector_path fs2)))"

definition install_downloaded :: "archive_lib \<Rightarrow> string \<Rightarrow> string \<Rightarrow> path \<Rightarrow> path \<Rightarrow> path \<Rightarrow>
    filesystem \<Rightarrow> (error + path) \<times> filesystem" where
  \<comment> \<open>Lines 90-121: what is done with the downloaded file, by its extension.\<close>
  "install_downloaded A url archive_ext store_path tmp_dir download_target fs =
     (let archive_ext_lower = lower archive_ext
      in if endswith_any archive_ext_lower [''.tar.gz'', ''.tgz'', ''.tar.bz2'', ''.tar'']
         then install_extracted A TarFile url store_path tmp_dir download_target fs
         else if suffix ''.zip'' archive_ext_lower
         then install_extracted A ZipFile url store_path tmp_dir download_target fs
         else if archive_ext \<noteq> []
         then finalize_and_clean store_path tmp_dir download_target fs
         else finalize_and_clean store_path tmp_dir download_target fs)"

definition download_prebuilt_vector_store :: "server \<Rightarrow> archive_lib \<Rightarrow> string \<Rightarrow> path \<Rightarrow> bool \<Rightarrow>
    world \<Rightarrow> (error + path) \<times> world" where
  "download_prebuilt_vector_store srv A url workspace force w =
     (case mkdir_parents workspace (files w) of
        Inl e \<Rightarrow> (Inl e, w)
      | Inr fs1 \<Rightarrow>
          (let store_path = workspace @ [VECTOR_STORE_FILENAME]
           in if path_exists fs1 store_path \<and> \<not> force then (Inr store_path, w\<lparr>files := fs1\<rparr>)
              else
                (let archive_ext = concat (url_suffixes A url);
                     tmp_dir = workspace @ [''.vector_store_tmp'']
                 in case (if path_exists fs1 tmp_dir then rmtree tmp_dir fs1 else Inr fs1) of
                      Inl e \<Rightarrow> (Inl e, w\<lparr>files := fs1\<rparr>)
                    | Inr fs2 \<Rightarrow>
                        (case mkdir_parents tmp_dir fs2 of
                           Inl e \<Rightarrow> (Inl e, w\<lparr>files := fs2\<rparr>)
                         | Inr fs3 \<Rightarrow>
                             (let download_target =
                                    tmp_dir @ [''download'' @ (if archive_ext = [] then ''.bin''
                                                               else archive_ext)]
                              in case http_stream_to_file srv url download_target
                                        (w\<lparr>files := fs3\<rparr>) of
                                   (Inl e, w4) \<Rightarrow> (Inl e, w4)
                                 | (Inr u, w4) \<Rightarrow>
                                     (case install_downloaded A url archive_ext store_path
                                             tmp_dir download_target (files w4) of
                                        (r, fs5) \<Rightarrow> (r, w4\<lparr>files := fs5\<rparr>)))))))"

section \<open>The alignment invariant\<close>

text \<open>
  A store is aligned when it has one metadata dictionary per row of the matrix and every
  dictionary has the key \<open>content\<close>.  \<open>result_at scores md i\<close> is the result that the loop
  of \<open>retrieve\<close> builds for the row index \<open>i\<close>.
\<close>

definition aligned :: "('v, 'row, 's) VectorStore \<Rightarrow> bool" where
  "aligned st \<longleftrightarrow>
     length (metadata st) = length (matrix st) \<and>
     list_all (\<lambda>d. map_of d ''content'' \<noteq> None) (metadata st)"

definition result_at :: "'s list \<Rightarrow> 's dict list \<Rightarrow> nat \<Rightarrow> 's RetrievalResult" where
  "result_at scores md i =
     \<lparr>score = scores ! i, content = dict_get (md ! i) ''content'',
      r_metadata = filter (\<lambda>(k, v). k \<noteq> ''content'') (md ! i)\<rparr>"

text \<open>
  The store that \<open>build_vector_store\<close> constructs and saves, for the fitted
  vectorizer \<open>v\<close>.
\<close>

definition built_store :: "('v, 'row, 's) lib \<Rightarrow> 'v \<Rightarrow> DocumentChunk list \<Rightarrow> ('v, 'row, 's) VectorStore" where
  "built_store L v chunks =
     \<lparr>vectorizer = v, matrix = map (transform L v) (map chunk_text chunks),
      metadata = map chunk_metadata chunks\<rparr>"

section \<open>Installing a prebuilt store: what the properties speak of\<close>


definition delivered :: "response \<Rightarrow> bool" where
  "delivered r = (case r of ConnectFailed \<Rightarrow> False | Response st chunks whole \<Rightarrow> is_success st \<and> whole)"

definition body :: "response \<Rightarrow> bytes" where
  "body r = (case r of ConnectFailed \<Rightarrow> [] | Response st chunks whole \<Rightarrow> concat chunks)"

definition archive_kind_of :: "string \<Rightarrow> archive_kind option" where
  "archive_kind_of ext =
     (if endswith_any (lower ext) [''.tar.gz'', ''.tgz'', ''.tar.bz2'', ''.tar''] then Some TarFile
      else if suffix ''.zip'' (lower ext) then Some ZipFile
      else None)"

fun leaves_from :: "nat \<Rightarrow> path \<Rightarrow> bool" where
  "leaves_from d [] = False"
| "leaves_from d (c # cs) =
     (if c = ''..'' then d = 0 \<or> leaves_from (d - 1) cs
      else if c = ''.'' \<or> c = [] then leaves_from d cs
      else leaves_from (Suc d) cs)"

definition leaves :: "archive_kind \<Rightarrow> path \<Rightarrow> bool" where
  "leaves kind name = (case kind of TarFile \<Rightarrow> leaves_from 0 name | ZipFile \<Rightarrow> False)"

definition members_inside :: "archive_lib \<Rightarrow> string \<Rightarrow> response \<Rightarrow> bool" where
  "members_inside A ext r =
     (case archive_kind_of ext of
        None \<Rightarrow> True
      | Some kind \<Rightarrow>
          delivered r \<longrightarrow>
          list_all (\<lambda>m. \<not> leaves kind (fst m)) (fst (archive_members A kind (body r))))"


section \<open>Example data\<close>

text \<open>
  Concrete inputs on which the theorems below are instantiated.  The example library
  scores a row by the number of its characters that occur in the question, and sorts
  with the stable argsort; its serialisation knows one store, the example store.  There
  are three chunks, the first and the last with the same text, so that their scores tie
  for every question and under every vectorizer.
\<close>

definition example_settings :: Settings where
  "example_settings =
     \<lparr>raw_data_dir = [''data'', ''raw''], workspace_dir = [''data'', ''workspace''],
      openai_model = ''gpt-4o-mini'', top_k = 5, archives = []\<rparr>"

definition example_chunks :: "DocumentChunk list" where
  "example_chunks =
     [\<lparr>chunk_text = ''bot'', title = Some ''A'', refid = None, source_path = [''a.xml'']\<rparr>,
      \<lparr>chunk_text = ''fengsel'', title = Some ''B'', refid = None, source_path = [''b.xml'']\<rparr>,
      \<lparr>chunk_text = ''bot'', title = Some ''C'', refid = None, source_path = [''c.xml'']\<rparr>]"

definition example_store :: "(unit, string, nat) VectorStore" where
  "example_store =
     \<lparr>vectorizer = (), matrix = map chunk_text example_chunks,
      metadata = map chunk_metadata example_chunks\<rparr>"

definition example_lib :: "(unit, string, nat) lib" where
  "example_lib =
     \<lparr>fit = (\<lambda>mf texts. Inr ()),
      transform = (\<lambda>v t. t),
      cosine = (\<lambda>row q. length (filter (\<lambda>c. c \<in> set q) row)),
      argsort = stable_argsort,
      dumps = (\<lambda>d. if d = pickled example_store then ''pickle-1'' else ''pickle-0''),
      loads = (\<lambda>b. if b = ''pickle-1'' then Some (pickled example_store) else None),
      float_str = (\<lambda>x. ''0.0'')\<rparr>"

text \<open>
  A bot on the example store, a completion service, an environment without
  \<open>OPENAI_API_KEY\<close>, the two results of the question \<open>bot\<close> with \<open>top_k = 2\<close>, and
  the file system after saving the example store from an empty one.
\<close>

definition example_self :: "(unit, string, nat) GPTLovBot" where
  "example_self = \<lparr>store = example_store, model = ''gpt-4o-mini'', client = None\<rparr>"

definition example_svc :: service where
  "example_svc = (\<lambda>c req. Inr (Some ''svar''))"

definition no_key_env :: environ where
  "no_key_env = (\<lambda>name. None)"

definition example_contexts :: "nat RetrievalResult list" where
  "example_contexts =
     [\<lparr>score = 3, content = PStr ''bot'',
       r_metadata = [(''title'', PStr ''C''), (''refid'', PNone), (''source_path'', PStr ''c.xml'')]\<rparr>,
      \<lparr>score = 3, content = PStr ''bot'',
       r_metadata = [(''title'', PStr ''A''), (''refid'', PNone), (''source_path'', PStr ''a.xml'')]\<rparr>]"

definition example_artifact :: path where
  "example_artifact = [''data'', ''workspace'', ''vector_store.pkl'']"

definition example_files :: filesystem where
  "example_files =
     [([''data''], Dir), ([''data'', ''workspace''], Dir),
      ([''data'', ''workspace'', ''vector_store.pkl''], File ''pickle-1'')]"

text \<open>
  An empty world, a server that answers every request with 200 and the body \<open>abcd\<close> in
  two chunks, a server that answers 404 for \<open>a.tar\<close>, and the world after downloading
  \<open>a.tar\<close> into the empty one.
\<close>

definition example_world :: world where
  "example_world = \<lparr>files = [], requests = []\<rparr>"

definition example_server :: server where
  "example_server = (\<lambda>hist url. Response 200 [''ab'', ''cd''] True)"

definition failing_server :: server where
  "failing_server =
     (\<lambda>hist url. if url = LOVDATA_BASE_URL @ ''a.tar'' then Response 404 [] True
                  else Response 200 [''ab'', ''cd''] True)"

definition example_world_a :: world where
  "example_world_a =
     \<lparr>files = [([''data''], Dir), ([''data'', ''raw''], Dir),
               ([''data'', ''raw'', ''a.tar''], File ''abcd'')],
      requests = [LOVDATA_BASE_URL @ ''a.tar'']\<rparr>"



text \<open>
  For the prebuilt store: a URL ending in \<open>.tar.gz\<close>, an archive library whose tar
  archive \<open>abcd\<close> holds \<open>model/vector_store.pkl\<close>, one whose archives hold only
  \<open>readme.txt\<close>, a server that answers 404 to everything, a world with an installed
  artifact \<open>OLD\<close>, and the worlds after a refused download, after a successful install
  and after an archive without the artifact.  The last archive has one member, called
  \<open>../vector_store.pkl\<close>.
\<close>

definition example_url :: string where
  "example_url = ''https://example.org/store.tar.gz''"



definition traversal_archive_lib :: archive_lib where
  "traversal_archive_lib =
     \<lparr>url_suffixes = (\<lambda>u. [''.tar'', ''.gz'']),
      untar = (\<lambda>b. ([([''..'', ''vector_store.pkl''], File ''EVIL'')], True)),
      unzip = (\<lambda>b. ([], False))\<rparr>"


definition installed_world :: world where
  "installed_world =
     \<lparr>files = [([''data''], Dir), ([''data'', ''workspace''], Dir),
               ([''data'', ''workspace'', ''vector_store.pkl''], File ''OLD'')],
      requests = []\<rparr>"




definition traversal_world :: world where
  "traversal_world =
     \<lparr>files =
        [([''data''], Dir), ([''data'', ''workspace''], Dir),
         ([''data'', ''workspace'', ''vector_store.pkl''], File ''EVIL''),
         ([''data'', ''workspace'', ''.vector_store_tmp''], Dir)],
      requests = [example_url]\<rparr>"

section \<open>Retrieval: ranking, ties and the default top-K\<close>

lemma is_argsort_length: "is_argsort xs idxs \<Longrightarrow> length idxs = length xs"
  unfolding is_argsort_def by (metis length_sort length_upt minus_nat.diff_0)

lemma is_argsort_set: "is_argsort xs idxs \<Longrightarrow> set idxs = {0..<length xs}"
  unfolding is_argsort_def by (metis set_sort set_upt)

lemma build_results_ok:
  "list_all (\<lambda>i. i < length md \<and> i < length scores \<and> map_of (md ! i) ''content'' \<noteq> None) idxs \<Longrightarrow>
   build_results scores md idxs = Inr (map (result_at scores md) idxs)"
  by (induction idxs) (auto simp: result_at_def dict_get_def)

lemma length_scores_of: "length (scores_of L st q) = length (matrix st)"
  by (simp add: scores_of_def)

lemma top_indices_subset: "set (top_indices L cfg st q topk) \<subseteq> set (argsort L (scores_of L st q))"
  by (auto simp: top_indices_def slice_to_def dest: in_set_takeD)

lemma retrieve_rows:
  "matrix st \<noteq> [] \<Longrightarrow>
   retrieve L cfg st q topk
     = build_results (scores_of L st q) (metadata st) (top_indices L cfg st q topk)"
  by (simp add: retrieve_def cosine_similarity_def scores_of_def top_indices_def Let_def)

lemma retrieve_no_rows:
  "matrix st = [] \<Longrightarrow> retrieve L cfg st q topk = Inl (ValueError ''Found array with 0 sample(s)'')"
  by (simp add: retrieve_def cosine_similarity_def Let_def)

lemma retrieve_ok:
  assumes al: "aligned st" and ne: "matrix st \<noteq> []"
    and srt: "is_argsort (scores_of L st q) (argsort L (scores_of L st q))"
  shows "retrieve L cfg st q topk =
     Inr (map (result_at (scores_of L st q) (metadata st)) (top_indices L cfg st q topk))"
proof -
  have "\<forall>i\<in>set (top_indices L cfg st q topk). i < length (matrix st)"
    using top_indices_subset[of L cfg st q topk] is_argsort_set[OF srt]
    by (auto simp: length_scores_of)
  then have "list_all (\<lambda>i. i < length (metadata st) \<and> i < length (scores_of L st q)
        \<and> map_of (metadata st ! i) ''content'' \<noteq> None) (top_indices L cfg st q topk)"
    using al by (auto simp: aligned_def list_all_iff length_scores_of all_set_conv_all_nth)
  then show ?thesis
    unfolding retrieve_rows[OF ne] by (rule build_results_ok)
qed

lemma top_indices_length:
  assumes srt: "is_argsort (scores_of L st q) (argsort L (scores_of L st q))"
    and k: "0 \<le> int_or topk (top_k cfg)"
  shows "length (top_indices L cfg st q topk) = min (nat (int_or topk (top_k cfg))) (length (matrix st))"
  using k is_argsort_length[OF srt] by (simp add: top_indices_def slice_to_def length_scores_of)

lemma top_indices_desc:
  assumes srt: "is_argsort sc (argsort L sc)" and sc: "sc = scores_of L st q"
  shows "sorted_wrt (\<lambda>a b. b \<le> a) (map (\<lambda>i. sc ! i) (top_indices L cfg st q topk))"
proof -
  have "sorted (map (\<lambda>i. sc ! i) (argsort L sc))"
    using srt by (simp add: is_argsort_def)
  then have "sorted_wrt (\<lambda>a b. b \<le> a) (rev (map (\<lambda>i. sc ! i) (argsort L sc)))"
    by (simp add: sorted_wrt_rev)
  then have "sorted_wrt (\<lambda>a b. b \<le> a) (map (\<lambda>i. sc ! i) (rev (argsort L sc)))"
    by (simp add: rev_map)
  then show ?thesis
    unfolding top_indices_def slice_to_def sc[symmetric]
    by (auto simp: take_map[symmetric] intro: sorted_wrt_take)
qed

lemma map_score_result_at: "map score (map (result_at sc md) idxs) = map (\<lambda>i. sc ! i) idxs"
  by (simp add: result_at_def)

text \<open>
  Claim C1, as amended.  For every aligned store (as \<open>build_vector_store\<close> makes them)
  that has at least one document, every question and every \<open>top_k\<close> argument whose
  effective value \<open>top_k or settings.top_k\<close> is not negative, and for every
  \<open>numpy.argsort\<close> that keeps its contract on the scores, \<open>retrieve\<close> returns results in
  non-increasing score order, and their number is the minimum of the effective top-K and
  the number of documents.  (On a store without documents \<open>cosine_similarity\<close> raises:
  lemma \<open>retrieve_no_rows\<close>.)
\<close>

theorem retrieve_ranked:
  assumes "aligned st" and "matrix st \<noteq> []"
    and "is_argsort (scores_of L st q) (argsort L (scores_of L st q))"
    and "0 \<le> int_or topk (top_k cfg)"
  shows "\<exists>rs. retrieve L cfg st q topk = Inr rs
           \<and> length rs = min (nat (int_or topk (top_k cfg))) (length (matrix st))
           \<and> sorted_wrt (\<lambda>a b. b \<le> a) (map score rs)"
proof -
  let ?sc = "scores_of L st q" and ?top = "top_indices L cfg st q topk"
  have r: "retrieve L cfg st q topk = Inr (map (result_at ?sc (metadata st)) ?top)"
    by (rule retrieve_ok[OF assms(1,2,3)])
  have "sorted_wrt (\<lambda>a b. b \<le> a) (map score (map (result_at ?sc (metadata st)) ?top))"
    unfolding map_score_result_at by (rule top_indices_desc[OF assms(3) refl])
  with r top_indices_length[OF assms(3,4)] show ?thesis by simp
qed

text \<open>The theorem at the example store, the question \<open>bot\<close> and \<open>top_k = 2\<close>.\<close>

theorem retrieve_ranked_witness:
  "aligned example_store \<and> matrix example_store \<noteq> []
   \<and> is_argsort (scores_of example_lib example_store ''bot'')
        (argsort example_lib (scores_of example_lib example_store ''bot''))
   \<and> 0 \<le> int_or (Some 2) (top_k example_settings)
   \<and> (\<exists>rs. retrieve example_lib example_settings example_store ''bot'' (Some 2) = Inr rs
         \<and> length rs = 2 \<and> sorted_wrt (\<lambda>a b. b \<le> a) (map score rs))"
proof -
  have a: "aligned example_store"
    by (simp add: aligned_def example_store_def example_chunks_def chunk_metadata_def)
  have n: "matrix example_store \<noteq> []"
    by (simp add: example_store_def example_chunks_def)
  have sc: "scores_of example_lib example_store ''bot'' = [3, 0, 3]"
    by (simp add: scores_of_def example_lib_def example_store_def example_chunks_def)
  have b: "is_argsort (scores_of example_lib example_store ''bot'')
        (argsort example_lib (scores_of example_lib example_store ''bot''))"
    unfolding sc by (simp add: is_argsort_def example_lib_def stable_argsort_def)
  have c: "0 \<le> int_or (Some 2) (top_k example_settings)"
    by (simp add: int_or_def)
  have d: "int_or (Some 2) (top_k example_settings) = 2" "length (matrix example_store) = 3"
    by (simp_all add: int_or_def example_store_def example_chunks_def)
  show ?thesis
    using a n b c retrieve_ranked[OF a n b c] unfolding d by simp
qed

text \<open>
  Claim C1 as stated fails where the argument is \<open>0\<close>: the claim gives the length
  \<open>min(0, 3) = 0\<close>, the code falls back to \<open>settings.top_k = 5\<close> and returns all three
  documents.
\<close>

theorem retrieve_top_k_zero_counterexample:
  "map_sum id length (retrieve example_lib example_settings example_store ''bot'' (Some 0)) = Inr 3
   \<and> int 3 \<noteq> min 0 (int (length (matrix example_store)))"
  by (simp add: retrieve_def cosine_similarity_def Let_def top_indices_def scores_of_def
      example_lib_def example_store_def
      example_chunks_def example_settings_def stable_argsort_def int_or_def slice_to_def
      chunk_metadata_def)

lemma insort_key_lex:
  fixes f :: "nat \<Rightarrow> 's::linorder"
  assumes "sorted_wrt (\<lambda>i j. f i < f j \<or> (f i = f j \<and> i < j)) ys" and "\<forall>y\<in>set ys. x < y"
  shows "sorted_wrt (\<lambda>i j. f i < f j \<or> (f i = f j \<and> i < j)) (insort_key f x ys)"
  using assms
proof (induction ys)
  case Nil
  then show ?case by simp
next
  case (Cons y ys)
  then show ?case by (auto simp: set_insort_key) 
qed

lemma sort_key_lex:
  fixes f :: "nat \<Rightarrow> 's::linorder"
  shows "sorted_wrt (<) xs \<Longrightarrow> sorted_wrt (\<lambda>i j. f i < f j \<or> (f i = f j \<and> i < j)) (sort_key f xs)"
  by (induction xs) (auto intro!: insort_key_lex)

lemma stable_argsort_lex:
  "sorted_wrt (\<lambda>i j. sc ! i < sc ! j \<or> (sc ! i = sc ! j \<and> i < j)) (stable_argsort sc)"
  unfolding stable_argsort_def by (rule sort_key_lex) (simp add: sorted_wrt_iff_nth_less)

lemma sort_sort_key_upt: "sort (sort_key f [0..<n]) = [0..<n]"
  by (rule sorted_distinct_set_unique) simp_all

lemma stable_argsort_is_argsort: "is_argsort sc (stable_argsort sc)"
  unfolding is_argsort_def stable_argsort_def
  by (simp add: sort_sort_key_upt)

lemma top_indices_lex:
  assumes "argsort L (scores_of L st q) = stable_argsort (scores_of L st q)"
  shows "sorted_wrt (\<lambda>i j. scores_of L st q ! j < scores_of L st q ! i
                         \<or> (scores_of L st q ! i = scores_of L st q ! j \<and> j < i))
           (top_indices L cfg st q topk)"
proof -
  let ?sc = "scores_of L st q"
  have "sorted_wrt (\<lambda>i j. ?sc ! j < ?sc ! i \<or> (?sc ! i = ?sc ! j \<and> j < i)) (rev (stable_argsort ?sc))"
    using stable_argsort_lex[of ?sc] by (simp add: sorted_wrt_rev eq_commute)
  then show ?thesis
    unfolding top_indices_def slice_to_def assms
    by (auto intro: sorted_wrt_take)
qed

lemma top_indices_select:
  assumes "argsort L (scores_of L st q) = stable_argsort (scores_of L st q)"
    and "i \<in> set (top_indices L cfg st q topk)" and "j < length (matrix st)"
    and "j \<notin> set (top_indices L cfg st q topk)"
  shows "scores_of L st q ! j < scores_of L st q ! i
          \<or> (scores_of L st q ! i = scores_of L st q ! j \<and> j < i)"
proof -
  let ?sc = "scores_of L st q" and ?R = "\<lambda>i j. scores_of L st q ! j < scores_of L st q ! i
          \<or> (scores_of L st q ! i = scores_of L st q ! j \<and> j < i)"
  let ?l = "rev (stable_argsort ?sc)"
  obtain m where top: "top_indices L cfg st q topk = take m ?l"
    unfolding top_indices_def slice_to_def assms(1) by metis
  have "sorted_wrt ?R ?l"
    using stable_argsort_lex[of ?sc] by (simp add: sorted_wrt_rev eq_commute)
  then have "sorted_wrt ?R (take m ?l @ drop m ?l)" by simp
  then have *: "\<forall>x\<in>set (take m ?l). \<forall>y\<in>set (drop m ?l). ?R x y"
    unfolding sorted_wrt_append by blast
  have "j \<in> set ?l"
    using assms(3) is_argsort_set[OF stable_argsort_is_argsort, of ?sc]
    by (simp add: length_scores_of)
  then have "j \<in> set (take m ?l) \<union> set (drop m ?l)"
    by (metis append_take_drop_id set_append)
  with assms(4) top have "j \<in> set (drop m ?l)" by simp
  with * assms(2) top show ?thesis by simp
qed

lemma is_argsort_distinct: "is_argsort xs idxs \<Longrightarrow> distinct idxs"
  unfolding is_argsort_def by (metis distinct_sort distinct_upt)

lemma top_indices_take:
  "\<exists>m. top_indices L cfg st q topk = take m (rev (argsort L (scores_of L st q)))"
  unfolding top_indices_def slice_to_def by metis

lemma top_indices_suffix: "suffix (rev (top_indices L cfg st q topk)) (argsort L (scores_of L st q))"
proof -
  obtain m where "top_indices L cfg st q topk = take m (rev (argsort L (scores_of L st q)))"
    using top_indices_take by blast
  then have "rev (top_indices L cfg st q topk)
      = drop (length (argsort L (scores_of L st q)) - m) (argsort L (scores_of L st q))"
    by (simp add: rev_take)
  then show ?thesis by (simp add: suffix_drop)
qed

lemma top_indices_above_rest:
  assumes srt: "is_argsort (scores_of L st q) (argsort L (scores_of L st q))"
    and "i \<in> set (top_indices L cfg st q topk)" and "j < length (matrix st)"
    and "j \<notin> set (top_indices L cfg st q topk)"
  shows "scores_of L st q ! j \<le> scores_of L st q ! i"
proof -
  let ?sc = "scores_of L st q"
  let ?l = "rev (argsort L ?sc)"
  obtain m where top: "top_indices L cfg st q topk = take m ?l"
    using top_indices_take by blast
  have "sorted (map (\<lambda>i. ?sc ! i) (argsort L ?sc))"
    using srt by (simp add: is_argsort_def)
  then have "sorted_wrt (\<lambda>i j. ?sc ! i \<le> ?sc ! j) (argsort L ?sc)"
    by (simp add: sorted_wrt_map)
  then have "sorted_wrt (\<lambda>i j. ?sc ! j \<le> ?sc ! i) ?l"
    by (simp add: sorted_wrt_rev)
  then have "sorted_wrt (\<lambda>i j. ?sc ! j \<le> ?sc ! i) (take m ?l @ drop m ?l)" by simp
  then have *: "\<forall>x\<in>set (take m ?l). \<forall>y\<in>set (drop m ?l). ?sc ! y \<le> ?sc ! x"
    unfolding sorted_wrt_append by blast
  have "j \<in> set ?l"
    using assms(3) is_argsort_set[OF srt] by (simp add: length_scores_of)
  then have "j \<in> set (take m ?l) \<union> set (drop m ?l)"
    by (metis append_take_drop_id set_append)
  with assms(4) top have "j \<in> set (drop m ?l)" by simp
  with * assms(2) top show ?thesis by simp
qed

text \<open>
  Claim C2, as amended.  \<open>retrieve\<close> applies no tie-break of its own.  For every aligned
  store with at least one document, every question and every \<open>numpy.argsort\<close> that keeps
  its contract: the selected indices, read backwards, are the tail of
  \<open>np.argsort(scores)\<close>; they are distinct and in non-increasing score order; every
  selected document scores at least as high as every unselected one; so documents with
  equal scores are selected and ordered in the reverse of the order \<open>np.argsort\<close> gives
  them.  Where that order is the stable one, tied documents come out by descending
  original index, not ascending, and every selected index precedes every unselected one
  in the order by descending score and then descending index.
\<close>

theorem retrieve_ties_reverse_argsort:
  assumes "aligned st" and "matrix st \<noteq> []"
    and "is_argsort (scores_of L st q) (argsort L (scores_of L st q))"
  shows "retrieve L cfg st q topk
           = Inr (map (result_at (scores_of L st q) (metadata st)) (top_indices L cfg st q topk))
       \<and> suffix (rev (top_indices L cfg st q topk)) (argsort L (scores_of L st q))
       \<and> distinct (top_indices L cfg st q topk)
       \<and> sorted_wrt (\<lambda>i j. scores_of L st q ! j \<le> scores_of L st q ! i)
           (top_indices L cfg st q topk)
       \<and> (\<forall>i\<in>set (top_indices L cfg st q topk). \<forall>j<length (matrix st).
             j \<notin> set (top_indices L cfg st q topk) \<longrightarrow>
             scores_of L st q ! j \<le> scores_of L st q ! i)
       \<and> (argsort L (scores_of L st q) = stable_argsort (scores_of L st q) \<longrightarrow>
            sorted_wrt (\<lambda>i j. scores_of L st q ! j < scores_of L st q ! i
                         \<or> (scores_of L st q ! i = scores_of L st q ! j \<and> j < i))
              (top_indices L cfg st q topk)
          \<and> (\<forall>i\<in>set (top_indices L cfg st q topk). \<forall>j<length (matrix st).
                j \<notin> set (top_indices L cfg st q topk) \<longrightarrow>
                scores_of L st q ! j < scores_of L st q ! i
                 \<or> (scores_of L st q ! i = scores_of L st q ! j \<and> j < i)))"
proof -
  let ?sc = "scores_of L st q" and ?top = "top_indices L cfg st q topk"
  have r: "retrieve L cfg st q topk = Inr (map (result_at ?sc (metadata st)) ?top)"
    by (rule retrieve_ok[OF assms])
  have s: "suffix (rev ?top) (argsort L ?sc)"
    by (rule top_indices_suffix)
  have "distinct (rev ?top)"
    using s is_argsort_distinct[OF assms(3)] by (auto simp: suffix_def)
  then have d: "distinct ?top" by simp
  have "sorted_wrt (\<lambda>a b. b \<le> a) (map (\<lambda>i. ?sc ! i) ?top)"
    by (rule top_indices_desc[OF assms(3) refl])
  then have o: "sorted_wrt (\<lambda>i j. ?sc ! j \<le> ?sc ! i) ?top"
    by (simp add: sorted_wrt_map)
  have a: "\<forall>i\<in>set ?top. \<forall>j<length (matrix st). j \<notin> set ?top \<longrightarrow> ?sc ! j \<le> ?sc ! i"
    using top_indices_above_rest[OF assms(3)] by blast
  have t: "sorted_wrt (\<lambda>i j. ?sc ! j < ?sc ! i \<or> (?sc ! i = ?sc ! j \<and> j < i)) ?top
          \<and> (\<forall>i\<in>set ?top. \<forall>j<length (matrix st). j \<notin> set ?top \<longrightarrow>
                ?sc ! j < ?sc ! i \<or> (?sc ! i = ?sc ! j \<and> j < i))"
    if st: "argsort L ?sc = stable_argsort ?sc"
    using top_indices_lex[OF st] top_indices_select[OF st] by blast
  from r s d o a t show ?thesis by blast
qed

text \<open>The theorem at the example store, where documents 0 and 2 tie.\<close>

theorem retrieve_ties_reverse_argsort_witness:
  "aligned example_store \<and> matrix example_store \<noteq> []
   \<and> is_argsort (scores_of example_lib example_store ''bot'')
        (argsort example_lib (scores_of example_lib example_store ''bot''))
   \<and> argsort example_lib (scores_of example_lib example_store ''bot'')
        = stable_argsort (scores_of example_lib example_store ''bot'')
   \<and> top_indices example_lib example_settings example_store ''bot'' (Some 2) = [2, 0]
   \<and> argsort example_lib (scores_of example_lib example_store ''bot'') = [1, 0, 2]
   \<and> suffix (rev (top_indices example_lib example_settings example_store ''bot'' (Some 2)))
        (argsort example_lib (scores_of example_lib example_store ''bot''))
   \<and> sorted_wrt (\<lambda>i j. scores_of example_lib example_store ''bot'' ! j
                          < scores_of example_lib example_store ''bot'' ! i
                        \<or> (scores_of example_lib example_store ''bot'' ! i
                             = scores_of example_lib example_store ''bot'' ! j \<and> j < i))
        (top_indices example_lib example_settings example_store ''bot'' (Some 2))"
proof -
  have a: "aligned example_store"
    by (simp add: aligned_def example_store_def example_chunks_def chunk_metadata_def)
  have n: "matrix example_store \<noteq> []"
    by (simp add: example_store_def example_chunks_def)
  have sc: "scores_of example_lib example_store ''bot'' = [3, 0, 3]"
    by (simp add: scores_of_def example_lib_def example_store_def example_chunks_def)
  have as: "argsort example_lib (scores_of example_lib example_store ''bot'') = [1, 0, 2]"
    unfolding sc by (simp add: example_lib_def stable_argsort_def)
  have b: "is_argsort (scores_of example_lib example_store ''bot'')
        (argsort example_lib (scores_of example_lib example_store ''bot''))"
    unfolding as unfolding sc by (simp add: is_argsort_def)
  have st: "argsort example_lib (scores_of example_lib example_store ''bot'')
     = stable_argsort (scores_of example_lib example_store ''bot'')"
    by (simp add: example_lib_def)
  have t: "top_indices example_lib example_settings example_store ''bot'' (Some 2) = [2, 0]"
    by (simp add: top_indices_def as int_or_def slice_to_def)
  note th = retrieve_ties_reverse_argsort[OF a n b, of example_settings "Some 2"]
  from th have s: "suffix (rev (top_indices example_lib example_settings example_store ''bot'' (Some 2)))
        (argsort example_lib (scores_of example_lib example_store ''bot''))"
    by blast
  from th st have l: "sorted_wrt (\<lambda>i j. scores_of example_lib example_store ''bot'' ! j
                          < scores_of example_lib example_store ''bot'' ! i
                        \<or> (scores_of example_lib example_store ''bot'' ! i
                             = scores_of example_lib example_store ''bot'' ! j \<and> j < i))
        (top_indices example_lib example_settings example_store ''bot'' (Some 2))"
    by blast
  from a n b st t as s l show ?thesis by blast
qed

text \<open>
  Claim C2 as stated fails on the example store: documents 0 and 2 have the same text and
  the same score, \<open>[1, 0, 2]\<close> is an argsort of the scores (the one a stable sort gives),
  and with it \<open>retrieve\<close> puts document 2 before document 0, and with \<open>top_k = 1\<close> selects
  document 2 (title \<open>C\<close>) rather than document 0 (title \<open>A\<close>).
\<close>

theorem retrieve_ties_counterexample:
  "scores_of example_lib example_store ''bot'' = [3, 0, 3]
   \<and> is_argsort [3, 0, 3 :: nat] [1, 0, 2]
   \<and> argsort example_lib [3, 0, 3] = [1, 0, 2]
   \<and> top_indices example_lib example_settings example_store ''bot'' (Some 2) = [2, 0]
   \<and> retrieve example_lib example_settings example_store ''bot'' (Some 1)
       = Inr [\<lparr>score = 3, content = PStr ''bot'',
                r_metadata = [(''title'', PStr ''C''), (''refid'', PNone),
                              (''source_path'', PStr ''c.xml'')]\<rparr>]"
  by (simp add: retrieve_def cosine_similarity_def Let_def top_indices_def scores_of_def
      example_lib_def example_store_def
      example_chunks_def example_settings_def stable_argsort_def int_or_def slice_to_def
      chunk_metadata_def is_argsort_def opt_val_def str_path_def)

lemma int_or_zero: "int_or (Some 0) d = int_or None d" "int_or (Some 0) d = int_or (Some d) d"
  by (simp_all add: int_or_def)

text \<open>
  Claim C10.  \<open>retrieve\<close> with \<open>top_k = 0\<close> is \<open>retrieve\<close> with \<open>top_k\<close> unset and is
  \<open>retrieve\<close> with \<open>top_k = settings.top_k\<close>: \<open>0\<close> is falsy, so the configured default is
  used.  With a positive default and a store that has a document, the result is not
  empty: it has \<open>min(settings.top_k, n)\<close> entries.
\<close>

theorem retrieve_zero_uses_default:
  "retrieve L cfg st q (Some 0) = retrieve L cfg st q None
   \<and> retrieve L cfg st q (Some 0) = retrieve L cfg st q (Some (top_k cfg))
   \<and> (aligned st \<and> is_argsort (scores_of L st q) (argsort L (scores_of L st q))
        \<and> 0 < top_k cfg \<and> matrix st \<noteq> [] \<longrightarrow>
      (\<exists>rs. retrieve L cfg st q (Some 0) = Inr rs \<and> rs \<noteq> []
            \<and> length rs = min (nat (top_k cfg)) (length (matrix st))))"
proof -
  have a: "retrieve L cfg st q (Some 0) = retrieve L cfg st q None"
    by (simp add: retrieve_def int_or_zero(1))
  have b: "retrieve L cfg st q (Some 0) = retrieve L cfg st q (Some (top_k cfg))"
    by (simp add: retrieve_def int_or_zero(2))
  have c: "\<exists>rs. retrieve L cfg st q (Some 0) = Inr rs \<and> rs \<noteq> []
            \<and> length rs = min (nat (top_k cfg)) (length (matrix st))"
    if al: "aligned st" and srt: "is_argsort (scores_of L st q) (argsort L (scores_of L st q))"
      and k: "0 < top_k cfg" and ne: "matrix st \<noteq> []"
  proof -
    have k0: "0 \<le> int_or (Some 0) (top_k cfg)" and ke: "int_or (Some 0) (top_k cfg) = top_k cfg"
      using k by (simp_all add: int_or_def)
    have len: "length (top_indices L cfg st q (Some 0)) = min (nat (top_k cfg)) (length (matrix st))"
      using top_indices_length[OF srt k0] ke by simp
    moreover have "0 < nat (top_k cfg)" "0 < length (matrix st)"
      using k ne by simp_all
    ultimately have "0 < length (top_indices L cfg st q (Some 0))"
      by linarith
    then have "top_indices L cfg st q (Some 0) \<noteq> []"
      by blast
    with retrieve_ok[OF al ne srt, of cfg "Some 0"] len show ?thesis by simp
  qed
  from a b c show ?thesis by blast
qed

text \<open>The theorem at the example store, with the default \<open>settings.top_k = 5\<close>.\<close>

theorem retrieve_zero_uses_default_witness:
  "aligned example_store
   \<and> is_argsort (scores_of example_lib example_store ''bot'')
        (argsort example_lib (scores_of example_lib example_store ''bot''))
   \<and> 0 < top_k example_settings \<and> matrix example_store \<noteq> []
   \<and> (\<exists>rs. retrieve example_lib example_settings example_store ''bot'' (Some 0) = Inr rs
         \<and> rs \<noteq> [] \<and> length rs = 3)"
proof -
  have a: "aligned example_store"
    by (simp add: aligned_def example_store_def example_chunks_def chunk_metadata_def)
  have sc: "scores_of example_lib example_store ''bot'' = [3, 0, 3]"
    by (simp add: scores_of_def example_lib_def example_store_def example_chunks_def)
  have b: "is_argsort (scores_of example_lib example_store ''bot'')
        (argsort example_lib (scores_of example_lib example_store ''bot''))"
    unfolding sc by (simp add: is_argsort_def example_lib_def stable_argsort_def)
  have c: "0 < top_k example_settings" "matrix example_store \<noteq> []"
    by (simp_all add: example_settings_def example_store_def example_chunks_def)
  have d: "min (nat (top_k example_settings)) (length (matrix example_store)) = 3"
    by (simp add: example_settings_def example_store_def example_chunks_def)
  show ?thesis
    using a b c retrieve_zero_uses_default[of example_lib example_settings example_store "''bot''"]
    unfolding d by blast
qed

section \<open>The empty-corpus guard\<close>

text \<open>
  Claim C3.  For the empty chunk sequence \<open>build_vector_store\<close> raises its empty-corpus
  error, the ValueError of line 40, and leaves the file system as it was: nothing is
  written.
\<close>

theorem build_vector_store_empty:
  "build_vector_store L [] workspace max_features fs
     = (Inl (ValueError ''No document chunks provided. Did you extract the archives?''), fs)"
  by (simp add: build_vector_store_def)

section \<open>The fallback answer\<close>

lemma ensure_client_no_key:
  "client self = None \<Longrightarrow> \<not> str_truthy (env ''OPENAI_API_KEY'') \<Longrightarrow>
   ensure_client env self
     = (Inl (RuntimeError ''OPENAI_API_KEY is not set. Cannot generate model responses.''), self)"
  by (auto simp: ensure_client_def str_truthy_def split: option.splits)

lemma generate_answer_fallback:
  assumes "client self = None" and "\<not> str_truthy (env ''OPENAI_API_KEY'')"
    and "list_all (\<lambda>b. is_str (content b)) ctx"
  shows "generate_answer svc env L self question ctx
     = (Inr (FALLBACK_NOTICE @ join (nl @ nl) (map (\<lambda>b. the_str (content b)) ctx)), self, [])"
proof -
  have "list_all is_str (map content ctx)"
    using assms(3) by (simp add: list_all_iff)
  then have "str_join (nl @ nl) (map content ctx)
      = Inr (join (nl @ nl) (map (\<lambda>b. the_str (content b)) ctx))"
    by (simp add: str_join_def comp_def)
  then show ?thesis
    using ensure_client_no_key[of self env] assms(1,2) by (simp add: generate_answer_def)
qed

text \<open>
  Claim C4.  A bot that holds no client (as \<open>__init__\<close> leaves it), in an environment where
  \<open>OPENAI_API_KEY\<close> is unset or empty: for every question and every context sequence
  that \<open>retrieve\<close> returns, with string contents, \<open>ask\<close> sends no request to the
  completion service, leaves the bot as it was, and answers with the fixed notice
  followed by the contents in retrieval order, joined by blank lines.
\<close>

theorem ask_fallback:
  assumes "client self = None" and "\<not> str_truthy (env ''OPENAI_API_KEY'')"
    and "retrieve L cfg (store self) question topk = Inr ctx"
    and "list_all (\<lambda>b. is_str (content b)) ctx"
  shows "ask svc env L cfg self question topk
     = (Inr \<lparr>answer = FALLBACK_NOTICE @ join (nl @ nl) (map (\<lambda>b. the_str (content b)) ctx),
             contexts = map context_dict ctx\<rparr>, self, [])"
  using generate_answer_fallback[of self env ctx svc L question] assms
  by (simp add: ask_def)

text \<open>The theorem on the example bot, the question \<open>bot\<close> and \<open>top_k = 2\<close>.\<close>

theorem ask_fallback_witness:
  "client example_self = None
   \<and> \<not> str_truthy (no_key_env ''OPENAI_API_KEY'')
   \<and> retrieve example_lib example_settings (store example_self) ''bot'' (Some 2) = Inr example_contexts
   \<and> list_all (\<lambda>b. is_str (content b)) example_contexts
   \<and> ask example_svc no_key_env example_lib example_settings example_self ''bot'' (Some 2)
       = (Inr \<lparr>answer = ''No OpenAI API key configured. Here are the most relevant excerpts:''
                        @ [CHR 0x0A, CHR 0x0A] @ ''bot'' @ [CHR 0x0A, CHR 0x0A] @ ''bot'',
               contexts = map context_dict example_contexts\<rparr>, example_self, [])"
proof -
  have a: "client example_self = None"
    by (simp add: example_self_def)
  have b: "\<not> str_truthy (no_key_env ''OPENAI_API_KEY'')"
    by (simp add: no_key_env_def str_truthy_def)
  have c: "retrieve example_lib example_settings (store example_self) ''bot'' (Some 2)
      = Inr example_contexts"
    by (simp add: retrieve_def cosine_similarity_def Let_def top_indices_def scores_of_def
      example_lib_def example_store_def
      example_chunks_def example_settings_def stable_argsort_def int_or_def slice_to_def
      chunk_metadata_def opt_val_def str_path_def example_self_def example_contexts_def)
  have d: "list_all (\<lambda>b. is_str (content b)) example_contexts"
    by (simp add: example_contexts_def is_str_def)
  have e: "FALLBACK_NOTICE @ join (nl @ nl) (map (\<lambda>b. the_str (content b)) example_contexts)
      = ''No OpenAI API key configured. Here are the most relevant excerpts:''
                        @ [CHR 0x0A, CHR 0x0A] @ ''bot'' @ [CHR 0x0A, CHR 0x0A] @ ''bot''"
    by (simp add: FALLBACK_NOTICE_def nl_def example_contexts_def the_str_def)
  show ?thesis
    using a b c d
      ask_fallback[where self = example_self and env = no_key_env and L = example_lib
        and cfg = example_settings and question = "''bot''" and topk = "Some 2"
        and ctx = example_contexts and svc = example_svc]
    unfolding e by simp
qed

section \<open>Saving and loading\<close>

lemma open_wb_nonempty: "open_wb p fs = Inr fs1 \<Longrightarrow> p \<noteq> []"
  by (auto simp: open_wb_def is_dir_def node_at_def split: if_splits)

lemma open_wb_write_read:
  assumes "open_wb p fs = Inr fs1"
  shows "read_bytes p (write_chunk p fs1 b) = Inr b"
proof -
  have p: "p \<noteq> []" by (rule open_wb_nonempty[OF assms])
  have fs1: "fs1 = AList.update p (File []) fs"
    using assms by (auto simp: open_wb_def split: if_splits)
  have "node_at fs1 p = Some (File [])"
    using p by (simp add: fs1 node_at_def update_conv')
  then have "write_chunk p fs1 b = AList.update p (File b) fs1"
    by (simp add: write_chunk_def)
  then show ?thesis
    using p by (simp add: read_bytes_def node_at_def update_conv')
qed

lemma joblib_dump_load:
  assumes "joblib_dump L d p fs = (Inr u, fs')" and "loads L (dumps L d) = Some d"
  shows "joblib_load L p fs' = Inr d"
proof -
  obtain fs1 where o: "open_wb p fs = Inr fs1" and fs': "fs' = write_chunk p fs1 (dumps L d)"
    using assms(1) by (auto simp: joblib_dump_def split: sum.splits)
  show ?thesis
    unfolding joblib_load_def fs' open_wb_write_read[OF o] using assms(2) by simp
qed

lemma load_pickled: "joblib_load L p fs = Inr (pickled st) \<Longrightarrow> load L p fs = Inr st"
  by (simp add: load_def pickled_def)

lemma save_load:
  assumes "save L st p fs = (Inr u, fs')"
    and "loads L (dumps L (pickled st)) = Some (pickled st)"
  shows "load L p fs' = Inr st"
proof -
  obtain fs1 where "joblib_dump L (pickled st) p fs1 = (Inr u, fs')"
    using assms(1) by (auto simp: save_def split: sum.splits)
  then show ?thesis
    by (intro load_pickled joblib_dump_load[OF _ assms(2)])
qed

text \<open>
  Claim C5.  When \<open>save\<close> succeeds and joblib reads back the dictionary it wrote for this
  store, \<open>load\<close> of the same path gives the store back: the same scores, the same
  selected indices and the same results for every question and every \<open>top_k\<close>.
\<close>

theorem save_load_roundtrip:
  assumes "save L st p fs = (Inr u, fs')"
    and "loads L (dumps L (pickled st)) = Some (pickled st)"
  shows "load L p fs' = Inr st
     \<and> (\<forall>st'. load L p fs' = Inr st' \<longrightarrow>
            scores_of L st' q = scores_of L st q
          \<and> top_indices L cfg st' q topk = top_indices L cfg st q topk
          \<and> retrieve L cfg st' q topk = retrieve L cfg st q topk)"
  using save_load[OF assms] by simp

text \<open>The theorem on the example store, saved into an empty file system.\<close>

lemma example_save:
  "save example_lib example_store example_artifact [] = (Inr (), example_files)"
  by (simp add: save_def joblib_dump_def mkdir_parents_def parent_def example_artifact_def
      example_files_def open_wb_def write_chunk_def is_dir_def is_file_def path_exists_def
      node_at_def example_lib_def)

lemma example_loads:
  "loads example_lib (dumps example_lib (pickled example_store)) = Some (pickled example_store)"
  by (simp add: example_lib_def)

theorem save_load_roundtrip_witness:
  "save example_lib example_store example_artifact [] = (Inr (), example_files)
   \<and> loads example_lib (dumps example_lib (pickled example_store)) = Some (pickled example_store)
   \<and> load example_lib example_artifact example_files = Inr example_store"
  using example_save example_loads
    save_load_roundtrip[OF example_save example_loads]
  by simp

section \<open>Alignment of the built store\<close>

lemma save_read:
  assumes "save L st p fs = (Inr u, fs')"
  shows "read_bytes p fs' = Inr (dumps L (pickled st))"
proof -
  obtain fs0 fs1 where o: "open_wb p fs0 = Inr fs1"
      and fs': "fs' = write_chunk p fs1 (dumps L (pickled st))"
    using assms by (auto simp: save_def joblib_dump_def split: sum.splits)
  show ?thesis unfolding fs' by (rule open_wb_write_read[OF o])
qed

lemma chunk_metadata_content: "map_of (chunk_metadata c) ''content'' = Some (PStr (chunk_text c))"
  by (simp add: chunk_metadata_def)

lemma result_at_chunk:
  "i < length chunks \<Longrightarrow>
   result_at sc (map chunk_metadata chunks) i
     = \<lparr>score = sc ! i, content = PStr (chunk_text (chunks ! i)),
        r_metadata = [(''title'', opt_val (title (chunks ! i))),
                      (''refid'', opt_val (refid (chunks ! i))),
                      (''source_path'', PStr (str_path (source_path (chunks ! i))))]\<rparr>"
  by (simp add: result_at_def chunk_metadata_def dict_get_def)

lemma built_store_aligned: "aligned (built_store L v chunks)"
  by (simp add: aligned_def built_store_def list_all_iff chunk_metadata_content)

lemma build_vector_store_Inr:
  assumes "build_vector_store L chunks ws mf fs = (Inr p, fs')"
  shows "chunks \<noteq> [] \<and> p = ws @ [VECTOR_STORE_FILENAME]
     \<and> (\<exists>v u. fit L mf (map chunk_text chunks) = Inr v
            \<and> save L (built_store L v chunks) p fs = (Inr u, fs'))"
  using assms
  by (auto simp: build_vector_store_def built_store_def Let_def split: if_splits sum.splits prod.splits)

text \<open>
  Claim C6.  When \<open>build_vector_store\<close> returns a path, the vectorizer was fitted to some
  \<open>v\<close>, and the file at the path is the pickle of the store \<open>built_store L v chunks\<close>
  (which \<open>load\<close> gives back when joblib reads back what it wrote).  That store is aligned:
  row \<open>i\<close> is the weight vector of \<open>chunks[i].text\<close>, \<open>metadata[i]\<close> is the dictionary of
  \<open>chunks[i]\<close> and its \<open>content\<close> is \<open>chunks[i].text\<close>.  \<open>retrieve\<close> maps every selected
  row index \<open>i\<close> to the score of row \<open>i\<close>, the text of \<open>chunks[i]\<close> and the other metadata
  of \<open>chunks[i]\<close>.
\<close>

theorem build_vector_store_aligned:
  assumes "build_vector_store L chunks ws mf fs = (Inr p, fs')"
  shows "\<exists>v. fit L mf (map chunk_text chunks) = Inr v
     \<and> read_bytes p fs' = Inr (dumps L (pickled (built_store L v chunks)))
     \<and> (loads L (dumps L (pickled (built_store L v chunks))) = Some (pickled (built_store L v chunks))
          \<longrightarrow> load L p fs' = Inr (built_store L v chunks))
     \<and> aligned (built_store L v chunks)
     \<and> (\<forall>i<length chunks.
           matrix (built_store L v chunks) ! i = transform L v (chunk_text (chunks ! i))
         \<and> metadata (built_store L v chunks) ! i = chunk_metadata (chunks ! i)
         \<and> map_of (metadata (built_store L v chunks) ! i) ''content''
             = Some (PStr (chunk_text (chunks ! i))))
     \<and> (is_argsort (scores_of L (built_store L v chunks) q)
            (argsort L (scores_of L (built_store L v chunks) q)) \<longrightarrow>
          list_all (\<lambda>i. i < length chunks) (top_indices L cfg (built_store L v chunks) q topk)
        \<and> retrieve L cfg (built_store L v chunks) q topk
            = Inr (map (\<lambda>i. \<lparr>score = scores_of L (built_store L v chunks) q ! i,
                              content = PStr (chunk_text (chunks ! i)),
                              r_metadata =
                                [(''title'', opt_val (title (chunks ! i))),
                                 (''refid'', opt_val (refid (chunks ! i))),
                                 (''source_path'', PStr (str_path (source_path (chunks ! i))))]\<rparr>)
                     (top_indices L cfg (built_store L v chunks) q topk)))"
proof -
  from build_vector_store_Inr[OF assms] obtain v u where
    v: "fit L mf (map chunk_text chunks) = Inr v"
    and sv: "save L (built_store L v chunks) p fs = (Inr u, fs')"
    by blast
  let ?st = "built_store L v chunks"
  have rd: "read_bytes p fs' = Inr (dumps L (pickled ?st))"
    by (rule save_read[OF sv])
  have ld: "loads L (dumps L (pickled ?st)) = Some (pickled ?st) \<longrightarrow> load L p fs' = Inr ?st"
    using save_load[OF sv] by blast
  have rows: "\<forall>i<length chunks.
           matrix ?st ! i = transform L v (chunk_text (chunks ! i))
         \<and> metadata ?st ! i = chunk_metadata (chunks ! i)
         \<and> map_of (metadata ?st ! i) ''content'' = Some (PStr (chunk_text (chunks ! i)))"
    by (simp add: built_store_def chunk_metadata_content)
  have ret: "list_all (\<lambda>i. i < length chunks) (top_indices L cfg ?st q topk)
        \<and> retrieve L cfg ?st q topk
            = Inr (map (\<lambda>i. \<lparr>score = scores_of L ?st q ! i,
                              content = PStr (chunk_text (chunks ! i)),
                              r_metadata =
                                [(''title'', opt_val (title (chunks ! i))),
                                 (''refid'', opt_val (refid (chunks ! i))),
                                 (''source_path'', PStr (str_path (source_path (chunks ! i))))]\<rparr>)
                     (top_indices L cfg ?st q topk))"
    if srt: "is_argsort (scores_of L ?st q) (argsort L (scores_of L ?st q))"
  proof -
    have sub: "\<forall>i\<in>set (top_indices L cfg ?st q topk). i < length chunks"
      using top_indices_subset[of L cfg ?st q topk] is_argsort_set[OF srt]
      by (auto simp: length_scores_of built_store_def)
    have "map (result_at (scores_of L ?st q) (metadata ?st)) (top_indices L cfg ?st q topk)
        = map (\<lambda>i. \<lparr>score = scores_of L ?st q ! i,
                              content = PStr (chunk_text (chunks ! i)),
                              r_metadata =
                                [(''title'', opt_val (title (chunks ! i))),
                                 (''refid'', opt_val (refid (chunks ! i))),
                                 (''source_path'', PStr (str_path (source_path (chunks ! i))))]\<rparr>)
                     (top_indices L cfg ?st q topk)"
      using sub by (intro map_cong refl) (simp add: built_store_def result_at_chunk)
    moreover have "matrix ?st \<noteq> []"
      using build_vector_store_Inr[OF assms] by (simp add: built_store_def)
    ultimately show ?thesis
      using retrieve_ok[OF built_store_aligned _ srt, of cfg topk] sub
      by (simp add: list_all_iff)
  qed
  from v rd ld built_store_aligned[of L v chunks] rows ret show ?thesis by blast
qed

text \<open>The theorem on the example chunks, built into an empty file system.\<close>

lemma example_build:
  "build_vector_store example_lib example_chunks [''data'', ''workspace''] (Some 50000) []
     = (Inr example_artifact, example_files)"
proof -
  have f: "fit example_lib (Some 50000) (map chunk_text example_chunks) = Inr ()"
    by (simp add: example_lib_def)
  have t: "map (transform example_lib () \<circ> chunk_text) example_chunks = matrix example_store"
    by (simp add: example_lib_def example_store_def)
  have st: "\<lparr>vectorizer = (), matrix = matrix example_store,
             metadata = map chunk_metadata example_chunks\<rparr> = example_store"
    by (simp add: example_store_def)
  have ne: "example_chunks \<noteq> []"
    by (simp add: example_chunks_def)
  show ?thesis
    unfolding build_vector_store_def
    by (simp add: ne f t st Let_def VECTOR_STORE_FILENAME_def example_artifact_def[symmetric]
        example_save)
qed

theorem build_vector_store_aligned_witness:
  "build_vector_store example_lib example_chunks [''data'', ''workspace''] (Some 50000) []
     = (Inr example_artifact, example_files)
   \<and> (\<exists>v. fit example_lib (Some 50000) (map chunk_text example_chunks) = Inr v
        \<and> read_bytes example_artifact example_files
            = Inr (dumps example_lib (pickled (built_store example_lib v example_chunks)))
        \<and> aligned (built_store example_lib v example_chunks))"
  using example_build
    build_vector_store_aligned[OF example_build, of "''bot''" example_settings "Some 2"]
  by blast

section \<open>The file system: lookups after the operations\<close>

lemma node_at_update:
  "node_at (AList.update d n fs) q = (if q = d \<and> q \<noteq> [] then Some n else node_at fs q)"
  by (simp add: node_at_def update_conv')


lemma set_tl_prefixes: "set (tl (prefixes p)) = {q. prefix q p \<and> q \<noteq> []}"
proof (cases p)
  case Nil
  then show ?thesis by simp
next
  case (Cons x xs)
  have "set (tl (prefixes p)) = (#) x ` set (prefixes xs)"
    using Cons by simp
  also have "\<dots> = {q. prefix q p \<and> q \<noteq> []}"
    unfolding Cons by (auto simp: prefix_Cons)
  finally show ?thesis .
qed

lemma map_of_dirs: "map_of (map (\<lambda>q. (q, Dir)) l) q = (if q \<in> set l then Some Dir else None)"
  by (induction l) auto

lemma node_at_mkdir_parents:
  assumes "mkdir_parents p fs = Inr fs1"
  shows "node_at fs1 q = (if prefix q p \<and> node_at fs q = None then Some Dir else node_at fs q)"
proof (cases "q = []")
  case True
  then show ?thesis by (simp add: node_at_def)
next
  case False
  define new where "new = filter (\<lambda>q. \<not> path_exists fs q) (tl (prefixes p))"
  have fs1: "fs1 = fs @ map (\<lambda>q. (q, Dir)) new"
    using assms by (auto simp: mkdir_parents_def Let_def new_def split: if_splits)
  have mem: "q \<in> set new \<longleftrightarrow> prefix q p \<and> map_of fs q = None"
    using False by (auto simp: new_def set_tl_prefixes path_exists_def node_at_def)
  have "map_of fs1 q = (case map_of fs q of None \<Rightarrow> map_of (map (\<lambda>q. (q, Dir)) new) q | Some v \<Rightarrow> Some v)"
    unfolding fs1 by (simp add: map_add_def)
  then show ?thesis
    using False by (auto simp: node_at_def map_of_dirs mem split: option.splits)
qed

lemma mkdir_parents_dirs_ok: "dirs_ok fs p \<Longrightarrow> mkdir_parents p fs = Inr fs"
proof -
  assume a: "dirs_ok fs p"
  then have "\<not> list_ex (is_file fs) (tl (prefixes p))"
    by (auto simp: dirs_ok_def list_all_iff list_ex_iff is_dir_def is_file_def)
  moreover have "filter (\<lambda>q. \<not> path_exists fs q) (tl (prefixes p)) = []"
    using a by (auto simp: dirs_ok_def list_all_iff filter_empty_conv is_dir_def path_exists_def)
  ultimately show ?thesis by (simp add: mkdir_parents_def)
qed

lemma dirs_ok_after_mkdir: "mkdir_parents p fs = Inr fs1 \<Longrightarrow> dirs_ok fs1 p"
proof -
  assume a: "mkdir_parents p fs = Inr fs1"
  then have nf: "\<not> list_ex (is_file fs) (tl (prefixes p))"
    by (auto simp: mkdir_parents_def Let_def split: if_splits)
  show ?thesis
    unfolding dirs_ok_def list_all_iff
  proof
    fix q assume q: "q \<in> set (tl (prefixes p))"
    then have pq: "prefix q p" by (simp add: set_tl_prefixes)
    have "\<not> is_file fs q" using nf q by (auto simp: list_ex_iff)
    then have "node_at fs q = None \<or> node_at fs q = Some Dir"
      by (auto simp: is_file_def split: option.splits node.splits)
    then show "is_dir fs1 q"
      unfolding is_dir_def node_at_mkdir_parents[OF a] using pq by auto
  qed
qed

lemma dirs_ok_cong:
  assumes "\<And>q. prefix q p \<Longrightarrow> node_at fs' q = node_at fs q"
  shows "dirs_ok fs' p = dirs_ok fs p"
  using assms by (simp add: dirs_ok_def list_all_iff set_tl_prefixes is_dir_def)

lemma node_at_write_chunk:
  "q \<noteq> p \<Longrightarrow> node_at (write_chunk p fs c) q = node_at fs q"
  by (auto simp: write_chunk_def node_at_update split: option.splits node.splits)

lemma is_file_write_chunk:
  assumes "is_file fs p"
  shows "is_file (write_chunk p fs c) p"
proof -
  obtain old where old: "node_at fs p = Some (File old)"
    using assms by (auto simp: is_file_def split: option.splits node.splits)
  then have "p \<noteq> []" by (auto simp: node_at_def)
  then show ?thesis
    by (simp add: write_chunk_def old is_file_def node_at_update)
qed

lemma node_at_write_chunks:
  "q \<noteq> p \<Longrightarrow> node_at (foldl (write_chunk p) fs cs) q = node_at fs q"
  by (induction cs arbitrary: fs) (simp_all add: node_at_write_chunk)

lemma is_file_write_chunks:
  "is_file fs p \<Longrightarrow> is_file (foldl (write_chunk p) fs cs) p"
  by (induction cs arbitrary: fs) (simp_all add: is_file_write_chunk)

lemma open_wb_Inr:
  assumes "open_wb p fs = Inr fs1"
  shows "is_file fs1 p" and "\<And>q. q \<noteq> p \<Longrightarrow> node_at fs1 q = node_at fs q"
proof -
  have p: "p \<noteq> []"
    using assms by (auto simp: open_wb_def is_dir_def node_at_def split: if_splits)
  have fs1: "fs1 = AList.update p (File []) fs"
    using assms by (auto simp: open_wb_def split: if_splits)
  show "is_file fs1 p" using p by (simp add: fs1 is_file_def node_at_update)
  show "\<And>q. q \<noteq> p \<Longrightarrow> node_at fs1 q = node_at fs q" by (simp add: fs1 node_at_update)
qed

lemma http_stream_requests:
  "http_stream_to_file srv url target w = (r, w') \<Longrightarrow> requests w' = requests w @ [url]"
  by (auto simp: http_stream_to_file_def Let_def split: response.splits if_splits sum.splits)

lemma http_stream_other:
  assumes "http_stream_to_file srv url target w = (r, w')" and "q \<noteq> target"
  shows "node_at (files w') q = node_at (files w) q"
  using assms open_wb_Inr(2)[of target "files w" _ q]
  by (auto simp: http_stream_to_file_def Let_def node_at_write_chunks
      split: response.splits if_splits sum.splits)

lemma http_stream_Inr_file:
  assumes "http_stream_to_file srv url target w = (Inr u, w')"
  shows "is_file (files w') target"
  using assms open_wb_Inr(1)[of target "files w"]
  by (auto simp: http_stream_to_file_def Let_def is_file_write_chunks
      split: response.splits if_splits sum.splits)

lemma is_file_exists: "is_file fs p \<Longrightarrow> path_exists fs p"
  by (auto simp: is_file_def path_exists_def split: option.splits)

lemma world_files_same [simp]: "w\<lparr>files := files w\<rparr> = w"
  by simp

lemma download_archive_present:
  assumes "dirs_ok (files w) dest_dir" and "path_exists (files w) (dest_dir @ [filename])"
  shows "download_archive srv filename dest_dir w = (Inr (dest_dir @ [filename]), w)"
  using assms by (simp add: download_archive_def mkdir_parents_dirs_ok)

lemma not_prefix_child: "\<not> prefix (d @ [f]) d"
  by (metis prefix_order.dual_order.antisym prefixI self_append_conv not_Cons_self2)

lemma exists_after_mkdir:
  assumes "mkdir_parents d fs = Inr fs1"
  shows "path_exists fs1 (d @ [f]) = path_exists fs (d @ [f])"
  unfolding path_exists_def node_at_mkdir_parents[OF assms] by (simp add: not_prefix_child)

lemma download_archive_no_request:
  assumes "path_exists (files w) (dest_dir @ [filename])"
    and "download_archive srv filename dest_dir w = (r, w')"
  shows "requests w' = requests w"
  using assms exists_after_mkdir[of dest_dir "files w" _ filename]
  by (auto simp: download_archive_def Let_def split: sum.splits)

lemma download_archive_request:
  assumes "\<not> path_exists (files w) (dest_dir @ [filename])"
    and "download_archive srv filename dest_dir w = (Inr p, w1)"
  shows "requests w1 = requests w @ [LOVDATA_BASE_URL @ filename]"
proof -
  obtain fs1 where m: "mkdir_parents dest_dir (files w) = Inr fs1"
    using assms(2) by (auto simp: download_archive_def split: sum.splits)
  have ne: "\<not> path_exists fs1 (dest_dir @ [filename])"
    using assms(1) exists_after_mkdir[OF m] by simp
  obtain u where "http_stream_to_file srv (LOVDATA_BASE_URL @ filename) (dest_dir @ [filename])
       (w\<lparr>files := fs1\<rparr>) = (Inr u, w1)"
    using assms(2) m ne by (auto simp: download_archive_def Let_def split: sum.splits prod.splits)
  from http_stream_requests[OF this] show ?thesis by simp
qed

lemma download_archive_Inr:
  assumes "download_archive srv filename dest_dir w = (Inr p, w1)"
  shows "p = dest_dir @ [filename] \<and> dirs_ok (files w1) dest_dir
         \<and> path_exists (files w1) (dest_dir @ [filename])"
proof -
  obtain fs1 where m: "mkdir_parents dest_dir (files w) = Inr fs1"
    using assms by (auto simp: download_archive_def split: sum.splits)
  have ok: "dirs_ok fs1 dest_dir" by (rule dirs_ok_after_mkdir[OF m])
  show ?thesis
  proof (cases "path_exists fs1 (dest_dir @ [filename])")
    case True
    then show ?thesis using assms m ok by (auto simp: download_archive_def)
  next
    case False
    then obtain u where h: "http_stream_to_file srv (LOVDATA_BASE_URL @ filename)
        (dest_dir @ [filename]) (w\<lparr>files := fs1\<rparr>) = (Inr u, w1)"
      and p: "p = dest_dir @ [filename]"
      using assms m by (auto simp: download_archive_def Let_def split: sum.splits prod.splits)
    have "dirs_ok (files w1) dest_dir = dirs_ok fs1 dest_dir"
    proof (rule dirs_ok_cong)
      fix q assume "prefix q dest_dir"
      then have "q \<noteq> dest_dir @ [filename]"
        using not_prefix_child[of dest_dir filename] by auto
      from http_stream_other[OF h this] show "node_at (files w1) q = node_at fs1 q" by simp
    qed
    with ok p is_file_exists[OF http_stream_Inr_file[OF h]] show ?thesis by simp
  qed
qed

lemma download_archive_again:
  assumes "download_archive srv filename dest_dir w = (Inr p, w1)"
  shows "download_archive srv2 filename dest_dir w1 = (Inr p, w1)"
  using download_archive_Inr[OF assms] download_archive_present by blast

section \<open>Acquiring archives: existing files, force, failures\<close>

lemma unlink_gone: "unlink p fs = Inr fs1 \<Longrightarrow> \<not> path_exists fs1 p"
  by (auto simp: unlink_def path_exists_def node_at_def delete_conv'
      split: option.splits node.splits if_splits)

lemma force_loop_requests:
  "ensure_archives_loop srv raw True names paths w = (Inr ps, w1) \<Longrightarrow>
   requests w1 = requests w @ map (\<lambda>n. LOVDATA_BASE_URL @ n) names"
proof (induction names arbitrary: paths w)
  case Nil
  then show ?case by simp
next
  case (Cons name names)
  let ?dest = "raw @ [name]"
  obtain fs1 where fs1: "(if True \<and> path_exists (files w) ?dest
        then unlink ?dest (files w) else Inr (files w)) = Inr fs1"
    using Cons.prems by (auto simp: Let_def split: sum.splits)
  have gone: "\<not> path_exists fs1 ?dest"
    using fs1 unlink_gone[of ?dest "files w" fs1] by (auto split: if_splits)
  obtain p w' where d: "download_archive srv name raw (w\<lparr>files := fs1\<rparr>) = (Inr p, w')"
    and rest: "ensure_archives_loop srv raw True names (paths @ [p]) w' = (Inr ps, w1)"
    using Cons.prems fs1 by (auto simp: Let_def split: sum.splits prod.splits if_splits)
  have "requests w' = requests w @ [LOVDATA_BASE_URL @ name]"
    using download_archive_request[OF _ d] gone by simp
  with Cons.IH[OF rest] show ?case by simp
qed

lemmas fs_defs = mkdir_parents_def open_wb_def write_chunk_def is_dir_def is_file_def
  path_exists_def node_at_def parent_def unlink_def Let_def

lemma example_download: "download_archive example_server ''a.tar'' [''data'', ''raw''] example_world
    = (Inr [''data'', ''raw'', ''a.tar''], example_world_a)"
  by (simp add: download_archive_def http_stream_to_file_def fs_defs example_world_def example_server_def example_world_a_def is_success_def)

lemma raw_dir: "raw_data_dir example_settings = [''data'', ''raw'']"
  by (simp add: example_settings_def)

lemma example_force_first: "ensure_archives example_server example_settings (Some [''a.tar'']) True example_world
    = (Inr [[''data'', ''raw'', ''a.tar'']], example_world_a)"
  by (simp add: ensure_archives_def raw_dir example_world_def path_exists_def node_at_def
      example_download[unfolded example_world_def])

lemma example_force_second: "ensure_archives example_server example_settings (Some [''a.tar'']) True example_world_a
    = (Inr [[''data'', ''raw'', ''a.tar'']],
       example_world_a\<lparr>requests := [LOVDATA_BASE_URL @ ''a.tar'', LOVDATA_BASE_URL @ ''a.tar'']\<rparr>)"
  by (simp add: ensure_archives_def raw_dir download_archive_def http_stream_to_file_def fs_defs
      example_server_def example_world_a_def is_success_def)

text \<open>
  Claim C7.  When the destination already exists, \<open>download_archive\<close> sends no request,
  and where the destination directory is a directory with its ancestors it returns the
  destination and leaves the world as it was.  When the destination does not exist and
  \<open>download_archive\<close> succeeds, it has sent exactly one request, and a second call,
  whatever the server, returns the same path and changes nothing: two calls, one
  download.  Two successful calls of \<open>ensure_archives\<close> with \<open>force=True\<close> send one
  request for every name each: the second call fetches every archive again.
\<close>

theorem acquisition_idempotent:
  "(path_exists (files w) (dest_dir @ [filename]) \<longrightarrow>
      requests (snd (download_archive srv filename dest_dir w)) = requests w
      \<and> (dirs_ok (files w) dest_dir \<longrightarrow>
           download_archive srv filename dest_dir w = (Inr (dest_dir @ [filename]), w)))
   \<and> (\<not> path_exists (files w) (dest_dir @ [filename])
        \<and> download_archive srv filename dest_dir w = (Inr p, w1) \<longrightarrow>
      requests w1 = requests w @ [LOVDATA_BASE_URL @ filename]
      \<and> download_archive srv2 filename dest_dir w1 = (Inr p, w1))
   \<and> (ensure_archives srv cfg (Some names) True w = (Inr ps, w2)
        \<and> ensure_archives srv2 cfg (Some names) True w2 = (Inr ps2, w3) \<longrightarrow>
      requests w2 = requests w @ map (\<lambda>n. LOVDATA_BASE_URL @ n) names
      \<and> requests w3 = requests w @ map (\<lambda>n. LOVDATA_BASE_URL @ n) names
                                  @ map (\<lambda>n. LOVDATA_BASE_URL @ n) names)"
proof -
  have a: "requests (snd (download_archive srv filename dest_dir w)) = requests w"
    if "path_exists (files w) (dest_dir @ [filename])"
    using download_archive_no_request[OF that, of srv] by (cases "download_archive srv filename dest_dir w") simp
  have b: "download_archive srv filename dest_dir w = (Inr (dest_dir @ [filename]), w)"
    if "path_exists (files w) (dest_dir @ [filename])" "dirs_ok (files w) dest_dir"
    using that by (simp add: download_archive_present)
  have c: "requests w1 = requests w @ [LOVDATA_BASE_URL @ filename]
      \<and> download_archive srv2 filename dest_dir w1 = (Inr p, w1)"
    if "\<not> path_exists (files w) (dest_dir @ [filename])"
      "download_archive srv filename dest_dir w = (Inr p, w1)"
    using download_archive_request[OF that] download_archive_again[OF that(2)] by simp
  have d: "requests w2 = requests w @ map (\<lambda>n. LOVDATA_BASE_URL @ n) names
      \<and> requests w3 = requests w @ map (\<lambda>n. LOVDATA_BASE_URL @ n) names
                                  @ map (\<lambda>n. LOVDATA_BASE_URL @ n) names"
    if "ensure_archives srv cfg (Some names) True w = (Inr ps, w2)"
      "ensure_archives srv2 cfg (Some names) True w2 = (Inr ps2, w3)"
    using that force_loop_requests[of srv "raw_data_dir cfg" names "[]" w ps w2]
      force_loop_requests[of srv2 "raw_data_dir cfg" names "[]" w2 ps2 w3]
    by (simp add: ensure_archives_def)
  from a b c d show ?thesis by blast
qed

text \<open>
  The theorem on the world that holds \<open>a.tar\<close> (with the server that would answer 404)
  and on the empty world.
\<close>

theorem acquisition_idempotent_witness:
  "path_exists (files example_world_a) ([''data'', ''raw''] @ [''a.tar''])
   \<and> dirs_ok (files example_world_a) [''data'', ''raw'']
   \<and> download_archive failing_server ''a.tar'' [''data'', ''raw''] example_world_a
        = (Inr [''data'', ''raw'', ''a.tar''], example_world_a)
   \<and> \<not> path_exists (files example_world) ([''data'', ''raw''] @ [''a.tar''])
   \<and> download_archive example_server ''a.tar'' [''data'', ''raw''] example_world
        = (Inr [''data'', ''raw'', ''a.tar''], example_world_a)
   \<and> requests example_world_a = requests example_world @ [LOVDATA_BASE_URL @ ''a.tar'']
   \<and> download_archive failing_server ''a.tar'' [''data'', ''raw''] example_world_a
        = (Inr [''data'', ''raw'', ''a.tar''], example_world_a)
   \<and> ensure_archives example_server example_settings (Some [''a.tar'']) True example_world
        = (Inr [[''data'', ''raw'', ''a.tar'']], example_world_a)
   \<and> ensure_archives example_server example_settings (Some [''a.tar'']) True example_world_a
        = (Inr [[''data'', ''raw'', ''a.tar'']],
           example_world_a\<lparr>requests := [LOVDATA_BASE_URL @ ''a.tar'', LOVDATA_BASE_URL @ ''a.tar'']\<rparr>)
   \<and> requests (example_world_a\<lparr>requests := [LOVDATA_BASE_URL @ ''a.tar'', LOVDATA_BASE_URL @ ''a.tar'']\<rparr>)
        = requests example_world @ map (\<lambda>n. LOVDATA_BASE_URL @ n) [''a.tar'']
            @ map (\<lambda>n. LOVDATA_BASE_URL @ n) [''a.tar'']"
proof -
  have h1: "path_exists (files example_world_a) ([''data'', ''raw''] @ [''a.tar''])"
    by (simp add: example_world_a_def path_exists_def node_at_def)
  have h2: "dirs_ok (files example_world_a) [''data'', ''raw'']"
    by (simp add: example_world_a_def dirs_ok_def is_dir_def node_at_def)
  have h3: "\<not> path_exists (files example_world) ([''data'', ''raw''] @ [''a.tar''])"
    by (simp add: example_world_def path_exists_def node_at_def)
  have r: "requests example_world = []"
    by (simp add: example_world_def)
  show ?thesis
    using h1 h2 h3 example_download example_force_first example_force_second
      acquisition_idempotent[of example_world_a "[''data'', ''raw'']" "''a.tar''" failing_server]
      acquisition_idempotent[of example_world "[''data'', ''raw'']" "''a.tar''" example_server
        "[''data'', ''raw'', ''a.tar'']" example_world_a failing_server example_settings
        "[''a.tar'']" "[[''data'', ''raw'', ''a.tar'']]" example_world_a
        "[[''data'', ''raw'', ''a.tar'']]"
        "example_world_a\<lparr>requests := [LOVDATA_BASE_URL @ ''a.tar'', LOVDATA_BASE_URL @ ''a.tar'']\<rparr>"]
    by (simp add: r)
qed














section \<open>Installing a prebuilt store: failures, cleanup, missing artifact\<close>













































lemmas run_defs = download_prebuilt_vector_store_def install_downloaded_def install_extracted_def
  finalize_and_clean_def finalize_def extractall_def put_member_def archive_members_def
  member_target_def member_step_def http_stream_to_file_def
  shutil_move_def rename_def rglob_def rmtree_def rmtree_ignore_errors_def read_bytes_def
  mkdir_parents_def open_wb_def write_chunk_def is_dir_def is_file_def
  path_exists_def node_at_def parent_def unlink_def Let_def
  endswith_any_def lower_def lower_char_def suffix_to_prefix is_success_def
  VECTOR_STORE_FILENAME_def





lemma example_traversal:
  "download_prebuilt_vector_store example_server traversal_archive_lib example_url
         [''data'', ''workspace''] True installed_world
   = (Inl (FileNotFoundError (''Downloaded archive from '' @ example_url
                                @ '' did not contain '' @ VECTOR_STORE_FILENAME)),
      traversal_world)"
  by (simp add: run_defs example_server_def traversal_archive_lib_def installed_world_def
      traversal_world_def)

text \<open>
  A tar archive whose one member is called \<open>../vector_store.pkl\<close>: the member is written
  over the installed artifact while the archive is extracted, nothing called
  \<open>vector_store.pkl\<close> is found below the scratch directory, and the call fails with the
  FileNotFoundError of line 114.  The call has failed and the artifact is no longer the
  one that was installed.
\<close>

lemma prebuilt_traversal_overwrites:
  "fst (download_prebuilt_vector_store example_server traversal_archive_lib example_url
         [''data'', ''workspace''] True installed_world)
     = Inl (FileNotFoundError (''Downloaded archive from '' @ example_url
                                @ '' did not contain '' @ VECTOR_STORE_FILENAME))
   \<and> node_at (files installed_world) [''data'', ''workspace'', ''vector_store.pkl'']
        = Some (File ''OLD'')
   \<and> node_at (files (snd (download_prebuilt_vector_store example_server traversal_archive_lib
         example_url [''data'', ''workspace''] True installed_world)))
         [''data'', ''workspace'', ''vector_store.pkl'']
        = Some (File ''EVIL'')
   \<and> \<not> members_inside traversal_archive_lib
         (concat (url_suffixes traversal_archive_lib example_url))
         (example_server (requests installed_world) example_url)"
  unfolding example_traversal
  by (simp add: installed_world_def traversal_world_def node_at_def members_inside_def
      archive_kind_of_def endswith_any_def lower_def lower_char_def suffix_to_prefix
      traversal_archive_lib_def example_server_def delivered_def is_success_def body_def
      archive_members_def leaves_def)






end
